theory Spec2Isabelle
  imports Main "HOL-Library.Word"
begin

section \<open>The MedicalRecords contract (contracts/MedicalRecords.sol)\<close>

text \<open>
  A shallow embedding of the Solidity contract \<^verbatim>\<open>MedicalRecords\<close>
  (\<^verbatim>\<open>pragma solidity ^0.8.19\<close>). Storage is a record that every function takes and
  returns; \<^verbatim>\<open>msg.sender\<close> and \<^verbatim>\<open>block.timestamp\<close> are passed in a call
  environment; a failed \<^verbatim>\<open>require\<close> is the value \<open>Inl (Revert reason)\<close> with the
  reason string of the source; the arithmetic and array-bounds checks that the compiler
  inserts since 0.8.0 are the value \<open>Inl Panic\<close>. A Solidity mapping is a total
  function whose unwritten slots hold the zero value of the value type. Gas, ether
  value and ABI decoding are outside the model; a mapping keyed by \<^verbatim>\<open>string\<close> is
  keyed by the string itself (the hash of the key is taken to be injective).
\<close>

subsection \<open>Types\<close>

type_synonym uint256 = "256 word"
type_synonym address = "160 word"

record MedicalRecord =
  recordId :: string
  encryptedDataHash :: string
  recordType :: string
  timestamp :: uint256
  uploadedBy :: address
  isActive :: bool
  metadata :: string

text \<open>The zero value of the struct: what an unwritten slot of \<^verbatim>\<open>patientRecords\<close> holds.\<close>

definition zero_record :: MedicalRecord where
  "zero_record = \<lparr>recordId = [], encryptedDataHash = [], recordType = [], timestamp = 0,
     uploadedBy = 0, isActive = False, metadata = []\<rparr>"

record contract =
  patientRecords :: "address \<Rightarrow> uint256 \<Rightarrow> MedicalRecord"
  patientRecordCount :: "address \<Rightarrow> uint256"
  recordIdExists :: "string \<Rightarrow> bool"
  authorizedPatients :: "address \<Rightarrow> bool"
  owner :: address
  patientRegistryContract :: address
  totalRecordsStored :: uint256

record call_env =
  msg_sender :: address
  block_timestamp :: uint256

datatype event =
    MedicalRecordAdded address string string uint256 address
  | MedicalRecordUpdated address string uint256
  | MedicalRecordDeactivated address string uint256
  | PatientAuthorized address uint256
  | PatientDeauthorized address uint256

datatype error = Revert string | Panic

type_synonym 'a result = "error + 'a"

text \<open>
  The error kinds of the specification (section 7), and the kind each revert reason of
  the contract falls under. A compiler-inserted panic has no kind in the specification.
\<close>

datatype error_kind = Unauthorized | InvalidArgument | AlreadyExists | OutOfRange | InvalidState

fun kind_of :: "error \<Rightarrow> error_kind option" where
  "kind_of Panic = None"
| "kind_of (Revert m) =
     (if m = ''Only owner can call this function'' then Some Unauthorized
      else if m = ''Not authorized to add records'' then Some Unauthorized
      else if m = ''Only patient or owner can access'' then Some Unauthorized
      else if m = ''Invalid address'' then Some InvalidArgument
      else if m = ''New owner cannot be zero address'' then Some InvalidArgument
      else if m = ''Record ID cannot be empty'' then Some InvalidArgument
      else if m = ''Data hash cannot be empty'' then Some InvalidArgument
      else if m = ''Record ID already exists'' then Some AlreadyExists
      else if m = ''Invalid record index'' then Some OutOfRange
      else if m = ''Record not active'' then Some InvalidState
      else if m = ''Record already inactive'' then Some InvalidState
      else None)"

subsection \<open>Modifiers\<close>

definition onlyOwner :: "contract \<Rightarrow> call_env \<Rightarrow> bool" where
  "onlyOwner s e = (msg_sender e = owner s)"

definition onlyAuthorizedPatient :: "contract \<Rightarrow> call_env \<Rightarrow> bool" where
  "onlyAuthorizedPatient s e = (authorizedPatients s (msg_sender e) \<or> msg_sender e = owner s)"

definition onlyPatientOrOwner :: "contract \<Rightarrow> call_env \<Rightarrow> address \<Rightarrow> bool" where
  "onlyPatientOrOwner s e patientAddress =
     (msg_sender e = patientAddress \<or> msg_sender e = owner s)"

subsection \<open>Constructor and owner functions\<close>

definition constructor :: "call_env \<Rightarrow> contract" where
  "constructor e = \<lparr>patientRecords = (\<lambda>_ _. zero_record), patientRecordCount = (\<lambda>_. 0),
     recordIdExists = (\<lambda>_. False), authorizedPatients = (\<lambda>_. False),
     owner = msg_sender e, patientRegistryContract = 0, totalRecordsStored = 0\<rparr>"

definition setPatientRegistryContract ::
  "contract \<Rightarrow> call_env \<Rightarrow> address \<Rightarrow> (contract \<times> event list) result" where
  "setPatientRegistryContract s e registryAddress =
     (if \<not> onlyOwner s e then Inl (Revert ''Only owner can call this function'')
      else Inr (s\<lparr>patientRegistryContract := registryAddress\<rparr>, []))"

definition authorizePatient ::
  "contract \<Rightarrow> call_env \<Rightarrow> address \<Rightarrow> (bool \<times> contract \<times> event list) result" where
  "authorizePatient s e patientAddress =
     (if \<not> onlyOwner s e then Inl (Revert ''Only owner can call this function'')
      else if \<not> patientAddress \<noteq> 0 then Inl (Revert ''Invalid address'')
      else Inr (True,
        s\<lparr>authorizedPatients := (authorizedPatients s)(patientAddress := True)\<rparr>,
        [PatientAuthorized patientAddress (block_timestamp e)]))"

definition deauthorizePatient ::
  "contract \<Rightarrow> call_env \<Rightarrow> address \<Rightarrow> (bool \<times> contract \<times> event list) result" where
  "deauthorizePatient s e patientAddress =
     (if \<not> onlyOwner s e then Inl (Revert ''Only owner can call this function'')
      else Inr (True,
        s\<lparr>authorizedPatients := (authorizedPatients s)(patientAddress := False)\<rparr>,
        [PatientDeauthorized patientAddress (block_timestamp e)]))"

definition transferOwnership ::
  "contract \<Rightarrow> call_env \<Rightarrow> address \<Rightarrow> (contract \<times> event list) result" where
  "transferOwnership s e newOwner =
     (if \<not> onlyOwner s e then Inl (Revert ''Only owner can call this function'')
      else if \<not> newOwner \<noteq> 0 then Inl (Revert ''New owner cannot be zero address'')
      else Inr (s\<lparr>owner := newOwner\<rparr>, []))"

subsection \<open>Record lifecycle\<close>

text \<open>
  \<^verbatim>\<open>x++\<close> on a \<^verbatim>\<open>uint256\<close>: checked since Solidity 0.8.0, it panics (and the call
  reverts) when \<open>x\<close> is \<open>2^256 - 1\<close>.
\<close>

definition checked_inc :: "uint256 \<Rightarrow> uint256 result" where
  "checked_inc x = (if x = - 1 then Inl Panic else Inr (x + 1))"

definition addMedicalRecord ::
  "contract \<Rightarrow> call_env \<Rightarrow> string \<Rightarrow> string \<Rightarrow> string \<Rightarrow> string
     \<Rightarrow> (bool \<times> contract \<times> event list) result" where
  "addMedicalRecord s e rid dataHash rtype meta =
     (if \<not> onlyAuthorizedPatient s e then Inl (Revert ''Not authorized to add records'')
      else if \<not> length rid > 0 then Inl (Revert ''Record ID cannot be empty'')
      else if \<not> length dataHash > 0 then Inl (Revert ''Data hash cannot be empty'')
      else if \<not> \<not> recordIdExists s rid then Inl (Revert ''Record ID already exists'')
      else
        let recordIndex = patientRecordCount s (msg_sender e);
            r = \<lparr>recordId = rid, encryptedDataHash = dataHash, recordType = rtype,
                 timestamp = block_timestamp e, uploadedBy = msg_sender e,
                 isActive = True, metadata = meta\<rparr>
        in case checked_inc (patientRecordCount s (msg_sender e)) of
             Inl err \<Rightarrow> Inl err
           | Inr c' \<Rightarrow>
              (case checked_inc (totalRecordsStored s) of
                 Inl err \<Rightarrow> Inl err
               | Inr t' \<Rightarrow>
                  Inr (True,
                    s\<lparr>patientRecords := (patientRecords s)(msg_sender e :=
                         (patientRecords s (msg_sender e))(recordIndex := r)),
                      recordIdExists := (recordIdExists s)(rid := True),
                      patientRecordCount := (patientRecordCount s)(msg_sender e := c'),
                      totalRecordsStored := t'\<rparr>,
                    [MedicalRecordAdded (msg_sender e) rid rtype (block_timestamp e)
                       (msg_sender e)])))"

definition updateMedicalRecord ::
  "contract \<Rightarrow> call_env \<Rightarrow> uint256 \<Rightarrow> string \<Rightarrow> string
     \<Rightarrow> (bool \<times> contract \<times> event list) result" where
  "updateMedicalRecord s e recordIndex dataHash meta =
     (if \<not> onlyAuthorizedPatient s e then Inl (Revert ''Not authorized to add records'')
      else if \<not> recordIndex < patientRecordCount s (msg_sender e)
        then Inl (Revert ''Invalid record index'')
      else if \<not> isActive (patientRecords s (msg_sender e) recordIndex)
        then Inl (Revert ''Record not active'')
      else if \<not> length dataHash > 0 then Inl (Revert ''Data hash cannot be empty'')
      else
        let r = patientRecords s (msg_sender e) recordIndex;
            r' = r\<lparr>encryptedDataHash := dataHash, metadata := meta\<rparr>
        in Inr (True,
             s\<lparr>patientRecords := (patientRecords s)(msg_sender e :=
                  (patientRecords s (msg_sender e))(recordIndex := r'))\<rparr>,
             [MedicalRecordUpdated (msg_sender e) (recordId r') (block_timestamp e)]))"

definition deactivateMedicalRecord ::
  "contract \<Rightarrow> call_env \<Rightarrow> uint256 \<Rightarrow> (bool \<times> contract \<times> event list) result" where
  "deactivateMedicalRecord s e recordIndex =
     (if \<not> onlyAuthorizedPatient s e then Inl (Revert ''Not authorized to add records'')
      else if \<not> recordIndex < patientRecordCount s (msg_sender e)
        then Inl (Revert ''Invalid record index'')
      else if \<not> isActive (patientRecords s (msg_sender e) recordIndex)
        then Inl (Revert ''Record already inactive'')
      else
        let r' = (patientRecords s (msg_sender e) recordIndex)\<lparr>isActive := False\<rparr>
        in Inr (True,
             s\<lparr>patientRecords := (patientRecords s)(msg_sender e :=
                  (patientRecords s (msg_sender e))(recordIndex := r'))\<rparr>,
             [MedicalRecordDeactivated (msg_sender e) (recordId r') (block_timestamp e)]))"

subsection \<open>Views\<close>

definition getMedicalRecord ::
  "contract \<Rightarrow> call_env \<Rightarrow> address \<Rightarrow> uint256 \<Rightarrow> MedicalRecord result" where
  "getMedicalRecord s e patientAddress recordIndex =
     (if \<not> onlyPatientOrOwner s e patientAddress
        then Inl (Revert ''Only patient or owner can access'')
      else if \<not> recordIndex < patientRecordCount s patientAddress
        then Inl (Revert ''Invalid record index'')
      else Inr (patientRecords s patientAddress recordIndex))"

definition getPatientRecordCount :: "contract \<Rightarrow> address \<Rightarrow> uint256" where
  "getPatientRecordCount s patientAddress = patientRecordCount s patientAddress"

definition isPatientAuthorized :: "contract \<Rightarrow> address \<Rightarrow> bool" where
  "isPatientAuthorized s patientAddress = authorizedPatients s patientAddress"

definition getTotalRecords :: "contract \<Rightarrow> uint256" where
  "getTotalRecords s = totalRecordsStored s"

definition getMyRecordCount :: "contract \<Rightarrow> call_env \<Rightarrow> uint256" where
  "getMyRecordCount s e = patientRecordCount s (msg_sender e)"

definition amIAuthorized :: "contract \<Rightarrow> call_env \<Rightarrow> bool" where
  "amIAuthorized s e = authorizedPatients s (msg_sender e)"

text \<open>
  \<^verbatim>\<open>getPatientRecordIds\<close>, first loop: \<^verbatim>\<open>for (i = 0; i < count; i++)\<close> counting the
  active records. Both increments are checked.
\<close>

function count_active ::
  "(uint256 \<Rightarrow> MedicalRecord) \<Rightarrow> uint256 \<Rightarrow> uint256 \<Rightarrow> uint256 \<Rightarrow> uint256 result" where
  "count_active recs count i activeCount =
     (if i < count then
        if isActive (recs i) \<and> activeCount = - 1 then Inl Panic
        else if i = - 1 then Inl Panic
        else count_active recs count (i + 1)
               (if isActive (recs i) then activeCount + 1 else activeCount)
      else Inr activeCount)"
  by pat_completeness auto
termination
proof (relation "measure (\<lambda>(recs, count, i, activeCount). unat count - unat i)")
  show "wf (measure (\<lambda>(recs, count, i, activeCount). unat count - unat i))"
    by simp
next
  fix recs :: "uint256 \<Rightarrow> MedicalRecord" and count i activeCount :: uint256
  assume "i < count" and "i \<noteq> - 1"
  then have "unat (i + 1) = Suc (unat i)" and "unat i < unat count"
    by (metis unatSuc add.commute max_word_wrap, simp add: word_less_nat_alt)
  then show "((recs, count, i + 1, if isActive (recs i) then activeCount + 1 else activeCount),
               (recs, count, i, activeCount))
             \<in> measure (\<lambda>(recs, count, i, activeCount). unat count - unat i)"
    by simp
qed

text \<open>
  Second loop: writes the id of each active record into the memory array
  \<^verbatim>\<open>recordIds\<close> at \<^verbatim>\<open>index\<close>. A write past the end of the array panics.
\<close>

function collect_ids ::
  "(uint256 \<Rightarrow> MedicalRecord) \<Rightarrow> uint256 \<Rightarrow> uint256 \<Rightarrow> string list \<Rightarrow> uint256
     \<Rightarrow> string list result" where
  "collect_ids recs count i recordIds index =
     (if i < count then
        if isActive (recs i) then
          if \<not> unat index < length recordIds then Inl Panic
          else if index = - 1 then Inl Panic
          else if i = - 1 then Inl Panic
          else collect_ids recs count (i + 1)
                 (recordIds[unat index := recordId (recs i)]) (index + 1)
        else if i = - 1 then Inl Panic
        else collect_ids recs count (i + 1) recordIds index
      else Inr recordIds)"
  by pat_completeness auto
termination
proof (relation "measure (\<lambda>(recs, count, i, recordIds, index). unat count - unat i)")
  show "wf (measure (\<lambda>(recs, count, i, recordIds, index). unat count - unat i))"
    by simp
next
  fix recs :: "uint256 \<Rightarrow> MedicalRecord" and count i index :: uint256
    and recordIds :: "string list"
  assume "i < count" and "i \<noteq> - 1"
  then have "unat (i + 1) = Suc (unat i)" and "unat i < unat count"
    by (metis unatSuc add.commute max_word_wrap, simp add: word_less_nat_alt)
  then show "((recs, count, i + 1, recordIds[unat index := recordId (recs i)], index + 1),
               (recs, count, i, recordIds, index))
             \<in> measure (\<lambda>(recs, count, i, recordIds, index). unat count - unat i)"
    by simp
next
  fix recs :: "uint256 \<Rightarrow> MedicalRecord" and count i index :: uint256
    and recordIds :: "string list"
  assume "i < count" and "i \<noteq> - 1"
  then have "unat (i + 1) = Suc (unat i)" and "unat i < unat count"
    by (metis unatSuc add.commute max_word_wrap, simp add: word_less_nat_alt)
  then show "((recs, count, i + 1, recordIds, index), (recs, count, i, recordIds, index))
             \<in> measure (\<lambda>(recs, count, i, recordIds, index). unat count - unat i)"
    by simp
qed

definition getPatientRecordIds ::
  "contract \<Rightarrow> call_env \<Rightarrow> address \<Rightarrow> string list result" where
  "getPatientRecordIds s e patientAddress =
     (if \<not> onlyPatientOrOwner s e patientAddress
        then Inl (Revert ''Only patient or owner can access'')
      else
        let count = patientRecordCount s patientAddress
        in case count_active (patientRecords s patientAddress) count 0 0 of
             Inl err \<Rightarrow> Inl err
           | Inr activeCount \<Rightarrow>
               collect_ids (patientRecords s patientAddress) count 0
                 (replicate (unat activeCount) []) 0)"

subsection \<open>Transactions\<close>

text \<open>
  The state-changing entry points of the contract as one datatype, a transaction as a
  call with its environment, and a run as a list of transactions: a transaction that
  reverts leaves the storage as it was. The views cannot change the storage and are not
  transactions.
\<close>

datatype call =
    SetPatientRegistryContract address
  | AuthorizePatient address
  | DeauthorizePatient address
  | AddMedicalRecord string string string string
  | UpdateMedicalRecord uint256 string string
  | DeactivateMedicalRecord uint256
  | TransferOwnership address

fun exec :: "contract \<Rightarrow> call_env \<Rightarrow> call \<Rightarrow> (contract \<times> event list) result" where
  "exec s e (SetPatientRegistryContract a) = setPatientRegistryContract s e a"
| "exec s e (AuthorizePatient a) = map_sum id snd (authorizePatient s e a)"
| "exec s e (DeauthorizePatient a) = map_sum id snd (deauthorizePatient s e a)"
| "exec s e (AddMedicalRecord rid dataHash rtype meta) =
     map_sum id snd (addMedicalRecord s e rid dataHash rtype meta)"
| "exec s e (UpdateMedicalRecord i dataHash meta) =
     map_sum id snd (updateMedicalRecord s e i dataHash meta)"
| "exec s e (DeactivateMedicalRecord i) = map_sum id snd (deactivateMedicalRecord s e i)"
| "exec s e (TransferOwnership a) = transferOwnership s e a"

fun step :: "contract \<Rightarrow> call_env \<times> call \<Rightarrow> contract" where
  "step s (e, c) = (case exec s e c of Inl err \<Rightarrow> s | Inr (s', evs) \<Rightarrow> s')"

fun run :: "contract \<Rightarrow> (call_env \<times> call) list \<Rightarrow> contract" where
  "run s [] = s"
| "run s (tx # txs) = run (step s tx) txs"

text \<open>
  Bookkeeping over a run, for the properties that speak of the history: whether a
  result is a success, the number of successful \<^verbatim>\<open>addMedicalRecord\<close> calls sent by an
  address, and whether \<^verbatim>\<open>authorizePatient\<close> ever succeeded for an address.
\<close>

fun succeeded :: "'a result \<Rightarrow> bool" where
  "succeeded (Inl err) = False"
| "succeeded (Inr v) = True"

fun is_add :: "call \<Rightarrow> bool" where
  "is_add (AddMedicalRecord rid dataHash rtype meta) = True"
| "is_add c = False"

fun successful_adds :: "address \<Rightarrow> contract \<Rightarrow> (call_env \<times> call) list \<Rightarrow> nat" where
  "successful_adds A s [] = 0"
| "successful_adds A s ((e, c) # txs) =
     (if msg_sender e = A \<and> is_add c \<and> succeeded (exec s e c) then 1 else 0)
     + successful_adds A (step s (e, c)) txs"

fun ever_authorized :: "address \<Rightarrow> contract \<Rightarrow> (call_env \<times> call) list \<Rightarrow> bool" where
  "ever_authorized A s [] = False"
| "ever_authorized A s ((e, c) # txs) =
     ((c = AuthorizePatient A \<and> succeeded (exec s e c))
      \<or> ever_authorized A (step s (e, c)) txs)"

text \<open>The indices \<open>0, \<dots>, count - 1\<close> of a sequence of records, in order.\<close>

definition indices :: "uint256 \<Rightarrow> uint256 list" where
  "indices count = map of_nat [0..<unat count]"

text \<open>
  The consistency of the ledger's id index with the stored records: every record below
  its address's count has its id marked in \<^verbatim>\<open>recordIdExists\<close>, every marked id
  belongs to such a record, and no two of these records have the same id.
\<close>

definition ids_consistent :: "contract \<Rightarrow> bool" where
  "ids_consistent s \<longleftrightarrow>
     (\<forall>A i. i < patientRecordCount s A \<longrightarrow>
        recordIdExists s (recordId (patientRecords s A i))) \<and>
     (\<forall>x. recordIdExists s x \<longrightarrow>
        (\<exists>A i. i < patientRecordCount s A \<and> recordId (patientRecords s A i) = x)) \<and>
     (\<forall>A i B j. i < patientRecordCount s A \<longrightarrow> j < patientRecordCount s B \<longrightarrow>
        recordId (patientRecords s A i) = recordId (patientRecords s B j) \<longrightarrow>
        A = B \<and> i = j)"

text \<open>Whether a result is a failure of a given kind of the specification.\<close>

fun fails_with :: "'a result \<Rightarrow> error_kind \<Rightarrow> bool" where
  "fails_with (Inl err) k = (kind_of err = Some k)"
| "fails_with (Inr v) k = False"

text \<open>The largest \<^verbatim>\<open>uint256\<close>, as a natural number.\<close>

definition uint256_max :: nat where
  "uint256_max = 2 ^ 256 - 1"

section \<open>Auxiliary lemmas\<close>

subsection \<open>Checked increments and counts\<close>

lemmas modifier_defs = onlyOwner_def onlyAuthorizedPatient_def onlyPatientOrOwner_def
lemmas fn_defs = setPatientRegistryContract_def authorizePatient_def deauthorizePatient_def
  transferOwnership_def addMedicalRecord_def updateMedicalRecord_def
  deactivateMedicalRecord_def checked_inc_def

lemma unat_inc: "(x::uint256) \<noteq> - 1 \<Longrightarrow> unat (x + 1) = Suc (unat x)"
  by (metis unatSuc add.commute max_word_wrap)

lemma less_inc_iff: "(c::uint256) \<noteq> - 1 \<Longrightarrow> i < c + 1 \<longleftrightarrow> i < c \<or> i = c"
  by (auto simp: word_less_nat_alt unat_inc word_unat_eq_iff)

lemma le_inc: "(c::uint256) \<noteq> - 1 \<Longrightarrow> c \<le> c + 1"
  by (simp add: word_le_nat_alt unat_inc)

text \<open>What a successful \<^verbatim>\<open>addMedicalRecord\<close> is.\<close>

lemma add_success_iff:
  "addMedicalRecord s e rid h t m = Inr res \<longleftrightarrow>
     onlyAuthorizedPatient s e \<and> rid \<noteq> [] \<and> h \<noteq> [] \<and> \<not> recordIdExists s rid \<and>
     patientRecordCount s (msg_sender e) \<noteq> - 1 \<and> totalRecordsStored s \<noteq> - 1 \<and>
     res = (True,
       s\<lparr>patientRecords := (patientRecords s)(msg_sender e :=
            (patientRecords s (msg_sender e))(patientRecordCount s (msg_sender e) :=
               \<lparr>recordId = rid, encryptedDataHash = h, recordType = t,
                timestamp = block_timestamp e, uploadedBy = msg_sender e,
                isActive = True, metadata = m\<rparr>)),
         recordIdExists := (recordIdExists s)(rid := True),
         patientRecordCount := (patientRecordCount s)(msg_sender e :=
            patientRecordCount s (msg_sender e) + 1),
         totalRecordsStored := totalRecordsStored s + 1\<rparr>,
       [MedicalRecordAdded (msg_sender e) rid t (block_timestamp e) (msg_sender e)])"
  by (auto simp: addMedicalRecord_def checked_inc_def Let_def)

lemma step_count:
  "unat (patientRecordCount (step s (e, c)) A) =
     unat (patientRecordCount s A)
     + (if msg_sender e = A \<and> is_add c \<and> succeeded (exec s e c) then 1 else 0)"
  by (cases c) (auto simp: fn_defs unat_inc Let_def split: sum.splits if_splits)

lemma run_count:
  "unat (patientRecordCount (run s txs) A) =
     unat (patientRecordCount s A) + successful_adds A s txs"
proof (induction txs arbitrary: s)
  case Nil
  show ?case by simp
next
  case (Cons tx txs)
  obtain e c where tx: "tx = (e, c)" by (cases tx)
  show ?case
    unfolding tx run.simps successful_adds.simps Cons.IH step_count by simp
qed

lemma sum_counts_upd:
  fixes f :: "address \<Rightarrow> uint256"
  assumes "f x \<noteq> - 1"
  shows "(\<Sum>a\<in>UNIV. unat (if a = x then f x + 1 else f a)) = Suc (\<Sum>a\<in>UNIV. unat (f a))"
proof -
  let ?g = "\<lambda>a. unat (if a = x then f x + 1 else f a)"
  have "sum ?g UNIV = ?g x + sum ?g (UNIV - {x})"
    by (rule sum.remove) simp_all
  also have "sum ?g (UNIV - {x}) = (\<Sum>a\<in>UNIV - {x}. unat (f a))"
    by (rule sum.cong) auto
  also have "?g x = Suc (unat (f x))"
    using assms by (simp add: unat_inc)
  also have "Suc (unat (f x)) + (\<Sum>a\<in>UNIV - {x}. unat (f a)) = Suc (\<Sum>a\<in>UNIV. unat (f a))"
    by (simp add: sum.remove [of UNIV x "\<lambda>a. unat (f a)"])
  finally show ?thesis .
qed

lemma step_total:
  assumes "unat (totalRecordsStored s) = (\<Sum>a\<in>UNIV. unat (patientRecordCount s a))"
  shows "unat (totalRecordsStored (step s tx)) =
           (\<Sum>a\<in>UNIV. unat (patientRecordCount (step s tx) a))"
proof (cases tx)
  case (Pair e c)
  show ?thesis
  proof (cases "is_add c \<and> succeeded (exec s e c)")
    case True
    then obtain rid h t m where c: "c = AddMedicalRecord rid h t m"
      by (cases c) auto
    from True c obtain res where r: "addMedicalRecord s e rid h t m = Inr res"
      by (cases "addMedicalRecord s e rid h t m") auto
    show ?thesis
      using assms r [unfolded add_success_iff] unfolding Pair c
      by (simp add: r sum_counts_upd unat_inc)
  next
    case False
    then show ?thesis
      using assms unfolding Pair
      by (cases c) (auto simp: fn_defs Let_def split: sum.splits if_splits)
  qed
qed

lemma run_total:
  assumes "unat (totalRecordsStored s) = (\<Sum>a\<in>UNIV. unat (patientRecordCount s a))"
  shows "unat (totalRecordsStored (run s txs)) =
           (\<Sum>a\<in>UNIV. unat (patientRecordCount (run s txs) a))"
  using assms by (induction txs arbitrary: s) (simp_all add: step_total)

lemma constructor_total:
  "unat (totalRecordsStored (constructor e)) =
     (\<Sum>a\<in>UNIV. unat (patientRecordCount (constructor e) a))"
  by (simp add: constructor_def)

subsection \<open>The id index stays consistent with the records\<close>

lemma ids_consistent_constructor: "ids_consistent (constructor e)"
  by (simp add: ids_consistent_def constructor_def)

lemma ids_consistent_add:
  assumes inv: "ids_consistent s"
    and ok: "addMedicalRecord s e rid h t m = Inr (b, s', evs)"
  shows "ids_consistent s'"
proof -
  let ?A = "msg_sender e" and ?c = "patientRecordCount s (msg_sender e)"
  from ok have fresh: "\<not> recordIdExists s rid" and c: "?c \<noteq> - 1"
    and s': "s' = s\<lparr>patientRecords := (patientRecords s)(?A :=
            (patientRecords s ?A)(?c :=
               \<lparr>recordId = rid, encryptedDataHash = h, recordType = t,
                timestamp = block_timestamp e, uploadedBy = ?A,
                isActive = True, metadata = m\<rparr>)),
         recordIdExists := (recordIdExists s)(rid := True),
         patientRecordCount := (patientRecordCount s)(?A := ?c + 1),
         totalRecordsStored := totalRecordsStored s + 1\<rparr>"
    by (simp_all add: add_success_iff)
  have old: "recordId (patientRecords s' B j) = recordId (patientRecords s B j)"
    "j < patientRecordCount s' B" if "j < patientRecordCount s B" for B j
    using that c by (auto simp: s' less_inc_iff)
  have new: "B = ?A \<and> j = ?c" "recordId (patientRecords s' B j) = rid"
    if "j < patientRecordCount s' B" "\<not> j < patientRecordCount s B" for B j
    using that c by (auto simp: s' less_inc_iff split: if_splits)
  have ex: "recordIdExists s' x \<longleftrightarrow> recordIdExists s x \<or> x = rid" for x
    by (auto simp: s')
  have here: "?c < patientRecordCount s' ?A" "recordId (patientRecords s' ?A ?c) = rid"
    using c by (simp_all add: s' less_inc_iff)
  from inv have i1: "\<And>A i. i < patientRecordCount s A \<Longrightarrow>
        recordIdExists s (recordId (patientRecords s A i))"
    and i2: "\<And>x. recordIdExists s x \<Longrightarrow>
        \<exists>A i. i < patientRecordCount s A \<and> recordId (patientRecords s A i) = x"
    and i3: "\<And>A i B j. i < patientRecordCount s A \<Longrightarrow> j < patientRecordCount s B \<Longrightarrow>
        recordId (patientRecords s A i) = recordId (patientRecords s B j) \<Longrightarrow> A = B \<and> i = j"
    unfolding ids_consistent_def by blast+
  show ?thesis
    unfolding ids_consistent_def
  proof (intro conjI allI impI)
    fix A i assume "i < patientRecordCount s' A"
    then show "recordIdExists s' (recordId (patientRecords s' A i))"
      using old(1) [of i A] new(2) [of i A] i1 [of i A] ex by (cases "i < patientRecordCount s A") auto
  next
    fix x assume "recordIdExists s' x"
    then consider "recordIdExists s x" | "x = rid" using ex by blast
    then show "\<exists>A i. i < patientRecordCount s' A \<and> recordId (patientRecords s' A i) = x"
    proof cases
      case 1
      then obtain A i where "i < patientRecordCount s A" "recordId (patientRecords s A i) = x"
        using i2 by blast
      then show ?thesis using old [of i A] by auto
    next
      case 2
      then show ?thesis using here by blast
    qed
  next
    fix A i B j
    assume a: "i < patientRecordCount s' A" and b: "j < patientRecordCount s' B"
      and eq: "recordId (patientRecords s' A i) = recordId (patientRecords s' B j)"
    show "A = B" "i = j"
      using a b eq old(1) [of i A] old(1) [of j B] new [of i A] new [of j B]
        i1 [of i A] i1 [of j B] i3 [of i A j B] fresh
      by (cases "i < patientRecordCount s A"; cases "j < patientRecordCount s B"; force)+
  qed
qed

lemma ids_consistent_cong:
  assumes "patientRecordCount s' = patientRecordCount s"
    and "recordIdExists s' = recordIdExists s"
    and "\<And>A i. recordId (patientRecords s' A i) = recordId (patientRecords s A i)"
  shows "ids_consistent s' = ids_consistent s"
  unfolding ids_consistent_def assms ..

lemma step_not_add_ids:
  assumes "\<not> is_add c"
  shows "patientRecordCount (step s (e, c)) = patientRecordCount s"
    and "recordIdExists (step s (e, c)) = recordIdExists s"
    and "recordId (patientRecords (step s (e, c)) A i) = recordId (patientRecords s A i)"
  using assms by (cases c; simp add: fn_defs Let_def; fail)+

lemma ids_consistent_step:
  assumes "ids_consistent s"
  shows "ids_consistent (step s tx)"
proof (cases tx)
  case (Pair e c)
  show ?thesis
  proof (cases "is_add c")
    case True
    then obtain rid h t m where c: "c = AddMedicalRecord rid h t m"
      by (cases c) auto
    show ?thesis
    proof (cases "addMedicalRecord s e rid h t m")
      case (Inl err)
      then have "step s (e, c) = s" by (simp add: c)
      with assms show ?thesis by (simp only: Pair)
    next
      case (Inr res)
      obtain b s' evs where res: "res = (b, s', evs)" by (cases res)
      have "ids_consistent s'"
        using assms Inr [unfolded res] by (rule ids_consistent_add)
      moreover have "step s (e, c) = s'" by (simp add: c Inr res)
      ultimately show ?thesis by (simp only: Pair)
    qed
  next
    case False
    have "ids_consistent (step s (e, c)) = ids_consistent s"
      by (rule ids_consistent_cong) (rule step_not_add_ids [OF False])+
    from this assms show ?thesis
      unfolding Pair by (rule iffD2)
  qed
qed

lemma ids_consistent_run: "ids_consistent s \<Longrightarrow> ids_consistent (run s txs)"
  by (induction txs arbitrary: s) (simp_all add: ids_consistent_step)

subsection \<open>The two loops of \<^verbatim>\<open>getPatientRecordIds\<close>\<close>

lemma upt_unat_step:
  fixes i count :: uint256
  assumes "i < count"
  shows "map of_nat [unat i..<unat count] = i # map of_nat [unat (i + 1)..<unat count]"
    and "i \<noteq> - 1" and "unat (i + 1) = Suc (unat i)" and "i + 1 \<le> count"
proof -
  from assms show ne: "i \<noteq> - 1" by auto
  then show suc: "unat (i + 1) = Suc (unat i)" by (rule unat_inc)
  from assms have lt: "unat i < unat count" by (simp add: word_less_nat_alt)
  then show "i + 1 \<le> count" by (simp add: word_le_nat_alt suc)
  from lt have "[unat i..<unat count] = unat i # [Suc (unat i)..<unat count]"
    by (rule upt_conv_Cons)
  then show "map of_nat [unat i..<unat count] = i # map of_nat [unat (i + 1)..<unat count]"
    by (simp add: suc)
qed

lemma count_active_eq:
  "i \<le> count \<Longrightarrow> unat activeCount \<le> unat i \<Longrightarrow>
   \<exists>n. count_active recs count i activeCount = Inr n \<and>
       unat n = unat activeCount
         + length (filter (\<lambda>j. isActive (recs j)) (map of_nat [unat i..<unat count]))"
proof (induction recs count i activeCount rule: count_active.induct)
  case (1 recs count i activeCount)
  show ?case
  proof (cases "i < count")
    case False
    with "1.prems" have "i = count" by simp
    then show ?thesis by (simp add: count_active.simps [of recs count count])
  next
    case True
    note st = upt_unat_step [OF True]
    from "1.prems"(2) have "activeCount \<le> i" by (simp add: word_le_nat_alt)
    with True have "activeCount < count" by simp
    then have ac: "activeCount \<noteq> - 1" by auto
    define ac' where "ac' = (if isActive (recs i) then activeCount + 1 else activeCount)"
    have ac'_val: "unat ac' = unat activeCount + (if isActive (recs i) then 1 else 0)"
      using ac by (simp add: ac'_def unat_inc)
    have le: "unat ac' \<le> unat (i + 1)"
      using "1.prems"(2) by (simp add: ac'_val st(3))
    have "\<exists>n. count_active recs count (i + 1) ac' = Inr n \<and>
       unat n = unat ac'
         + length (filter (\<lambda>j. isActive (recs j)) (map of_nat [unat (i + 1)..<unat count]))"
      unfolding ac'_def
    proof (rule "1.IH")
      show "i < count" by (rule True)
      show "\<not> (isActive (recs i) \<and> activeCount = - 1)" using ac by simp
      show "i \<noteq> - 1" by (rule st(2))
      show "i + 1 \<le> count" by (rule st(4))
      show "unat (if isActive (recs i) then activeCount + 1 else activeCount) \<le> unat (i + 1)"
        using le by (simp only: ac'_def)
    qed
    then obtain n where n: "count_active recs count (i + 1) ac' = Inr n"
      "unat n = unat ac'
         + length (filter (\<lambda>j. isActive (recs j)) (map of_nat [unat (i + 1)..<unat count]))"
      by blast
    have unf: "count_active recs count i activeCount = count_active recs count (i + 1) ac'"
      using True ac st(2) by (subst count_active.simps) (simp add: ac'_def)
    have "unat n = unat activeCount
         + length (filter (\<lambda>j. isActive (recs j)) (map of_nat [unat i..<unat count]))"
      unfolding n(2) ac'_val st(1) by simp
    with n(1) unf show ?thesis by simp
  qed
qed

lemma collect_ids_eq:
  "i \<le> count \<Longrightarrow> unat index \<le> unat i \<Longrightarrow>
   unat index + length (filter (\<lambda>j. isActive (recs j)) (map of_nat [unat i..<unat count]))
     \<le> length recordIds \<Longrightarrow>
   collect_ids recs count i recordIds index =
     Inr (take (unat index) recordIds
          @ map (\<lambda>j. recordId (recs j))
              (filter (\<lambda>j. isActive (recs j)) (map of_nat [unat i..<unat count]))
          @ drop (unat index
                  + length (filter (\<lambda>j. isActive (recs j)) (map of_nat [unat i..<unat count])))
              recordIds)"
proof (induction recs count i recordIds index rule: collect_ids.induct)
  case (1 recs count i recordIds index)
  show ?case
  proof (cases "i < count")
    case False
    with "1.prems" have "i = count" by simp
    then show ?thesis by (simp add: collect_ids.simps [of recs count count])
  next
    case True
    note st = upt_unat_step [OF True]
    from "1.prems"(2) have "index \<le> i" by (simp add: word_le_nat_alt)
    with True have "index < count" by simp
    then have ix: "index \<noteq> - 1" by auto
    let ?rest = "filter (\<lambda>j. isActive (recs j)) (map of_nat [unat (i + 1)..<unat count])"
    show ?thesis
    proof (cases "isActive (recs i)")
      case act: True
      from "1.prems"(3) have inb: "unat index < length recordIds"
        by (simp add: st(1) act)
      define ids where "ids = recordIds[unat index := recordId (recs i)]"
      have len: "length ids = length recordIds" by (simp add: ids_def)
      have ix1: "unat (index + 1) = Suc (unat index)" using ix by (rule unat_inc)
      have le: "unat (index + 1) \<le> unat (i + 1)"
        using "1.prems"(2) by (simp add: st(3) ix1)
      have room: "unat (index + 1) + length ?rest \<le> length ids"
        using "1.prems"(3) by (simp add: st(1) act ix1 len)
      have unf: "collect_ids recs count i recordIds index =
            collect_ids recs count (i + 1) ids (index + 1)"
        using True act inb ix st(2) by (subst collect_ids.simps) (simp add: ids_def)
      have ih: "collect_ids recs count (i + 1) ids (index + 1) =
           Inr (take (unat (index + 1)) ids @ map (\<lambda>j. recordId (recs j)) ?rest
                @ drop (unat (index + 1) + length ?rest) ids)"
        unfolding ids_def
      proof (rule "1.IH"(1))
        show "i < count" by (rule True)
        show "isActive (recs i)" by (rule act)
        show "\<not> \<not> unat index < length recordIds" using inb by simp
        show "index \<noteq> - 1" by (rule ix)
        show "i \<noteq> - 1" by (rule st(2))
        show "i + 1 \<le> count" by (rule st(4))
        show "unat (index + 1) \<le> unat (i + 1)" by (rule le)
        show "unat (index + 1) + length ?rest
              \<le> length (recordIds[unat index := recordId (recs i)])"
          using room by (simp only: ids_def)
      qed
      have tk: "take (unat (index + 1)) ids = take (unat index) recordIds @ [recordId (recs i)]"
        using inb by (simp add: ix1 ids_def take_Suc_conv_app_nth)
      have dr: "drop (unat (index + 1) + length ?rest) ids
                = drop (unat index + Suc (length ?rest)) recordIds"
        by (simp add: ix1 ids_def)
      show ?thesis
        unfolding unf ih tk dr st(1) by (simp add: act)
    next
      case inact: False
      have unf: "collect_ids recs count i recordIds index =
            collect_ids recs count (i + 1) recordIds index"
        using True inact st(2) by (subst collect_ids.simps) simp
      have le: "unat index \<le> unat (i + 1)"
        using "1.prems"(2) by (simp add: st(3))
      have room: "unat index + length ?rest \<le> length recordIds"
        using "1.prems"(3) by (simp add: st(1) inact)
      have ih: "collect_ids recs count (i + 1) recordIds index =
           Inr (take (unat index) recordIds @ map (\<lambda>j. recordId (recs j)) ?rest
                @ drop (unat index + length ?rest) recordIds)"
      proof (rule "1.IH"(2))
        show "i < count" by (rule True)
        show "\<not> isActive (recs i)" by (rule inact)
        show "i \<noteq> - 1" by (rule st(2))
        show "i + 1 \<le> count" by (rule st(4))
        show "unat index \<le> unat (i + 1)" by (rule le)
        show "unat index + length ?rest \<le> length recordIds" by (rule room)
      qed
      show ?thesis
        unfolding unf ih st(1) by (simp add: inact)
    qed
  qed
qed

lemma getPatientRecordIds_eq:
  assumes "onlyPatientOrOwner s e A"
  shows "getPatientRecordIds s e A =
    Inr (map recordId (filter isActive
          (map (patientRecords s A) (indices (patientRecordCount s A)))))"
proof -
  let ?recs = "patientRecords s A" and ?count = "patientRecordCount s A"
  let ?act = "filter (\<lambda>j. isActive (?recs j)) (map of_nat [unat (0::uint256)..<unat ?count])"
  have "\<exists>n. count_active ?recs ?count 0 0 = Inr n \<and> unat n = unat (0::uint256) + length ?act"
    by (rule count_active_eq) simp_all
  then obtain n where n0: "count_active ?recs ?count 0 0 = Inr n"
    "unat n = unat (0::uint256) + length ?act"
    by blast
  have n: "count_active ?recs ?count 0 0 = Inr n" "unat n = length ?act"
    using n0 by simp_all
  have "collect_ids ?recs ?count 0 (replicate (unat n) []) 0 =
      Inr (take (unat (0::uint256)) (replicate (unat n) [])
           @ map (\<lambda>j. recordId (?recs j)) ?act
           @ drop (unat (0::uint256) + length ?act) (replicate (unat n) []))"
    by (rule collect_ids_eq) (simp_all add: n(2))
  then have c: "collect_ids ?recs ?count 0 (replicate (unat n) []) 0 =
      Inr (map (\<lambda>j. recordId (?recs j)) ?act)"
    by (simp add: n(2))
  have "map (\<lambda>j. recordId (?recs j)) ?act
        = map recordId (filter isActive (map ?recs (indices ?count)))"
    by (simp add: indices_def filter_map comp_def)
  with c n(1) assms show ?thesis
    by (simp add: getPatientRecordIds_def)
qed

subsection \<open>Runs\<close>

lemma inactive_step:
  assumes "i < patientRecordCount s A" and "\<not> isActive (patientRecords s A i)"
  shows "i < patientRecordCount (step s tx) A \<and> \<not> isActive (patientRecords (step s tx) A i)"
proof (cases tx)
  case (Pair e c)
  show ?thesis
  proof (cases "is_add c")
    case True
    then obtain rid h t m where c: "c = AddMedicalRecord rid h t m"
      by (cases c) auto
    show ?thesis
    proof (cases "addMedicalRecord s e rid h t m")
      case (Inl err)
      then have "step s (e, c) = s" by (simp add: c)
      with assms show ?thesis by (simp only: Pair simp_thms)
    next
      case (Inr res)
      note r = Inr [unfolded add_success_iff]
      from r have ne: "patientRecordCount s (msg_sender e) \<noteq> - 1" by simp
      from r have st: "step s (e, c) =
        s\<lparr>patientRecords := (patientRecords s)(msg_sender e :=
            (patientRecords s (msg_sender e))(patientRecordCount s (msg_sender e) :=
               \<lparr>recordId = rid, encryptedDataHash = h, recordType = t,
                timestamp = block_timestamp e, uploadedBy = msg_sender e,
                isActive = True, metadata = m\<rparr>)),
         recordIdExists := (recordIdExists s)(rid := True),
         patientRecordCount := (patientRecordCount s)(msg_sender e :=
            patientRecordCount s (msg_sender e) + 1),
         totalRecordsStored := totalRecordsStored s + 1\<rparr>"
        by (simp add: c Inr)
      show ?thesis
      proof (cases "A = msg_sender e")
        case True
        from assms(1) have "i \<noteq> patientRecordCount s (msg_sender e)"
          and "i < patientRecordCount s (msg_sender e) + 1"
          by (simp_all add: True less_inc_iff [OF ne])
        with assms(2) show ?thesis
          unfolding Pair st by (simp add: True)
      next
        case False
        with assms show ?thesis
          unfolding Pair st by simp
      qed
    qed
  next
    case False
    have cnt: "patientRecordCount (step s (e, c)) = patientRecordCount s"
      by (rule step_not_add_ids [OF False])
    have "\<not> isActive (patientRecords (step s (e, c)) A i)"
      using assms(2) False
      by (cases c) (auto simp: fn_defs Let_def split: if_splits)
    with assms(1) show ?thesis by (simp only: Pair cnt simp_thms)
  qed
qed

lemma inactive_run:
  assumes "i < patientRecordCount s A" and "\<not> isActive (patientRecords s A i)"
  shows "i < patientRecordCount (run s txs) A \<and> \<not> isActive (patientRecords (run s txs) A i)"
  using assms
proof (induction txs arbitrary: s)
  case Nil
  then show ?case by simp
next
  case (Cons tx txs)
  from inactive_step [OF Cons.prems, of tx]
  have "i < patientRecordCount (run (step s tx) txs) A \<and>
        \<not> isActive (patientRecords (run (step s tx) txs) A i)"
    by (intro Cons.IH) simp_all
  then show ?case by simp
qed

lemma never_authorized_step:
  assumes "\<not> authorizedPatients s A"
    and "\<not> (c = AuthorizePatient A \<and> succeeded (exec s e c))"
  shows "\<not> authorizedPatients (step s (e, c)) A"
  using assms by (cases c; simp add: fn_defs Let_def split: if_splits; fail)

lemma never_authorized_run:
  assumes "\<not> authorizedPatients s A" and "\<not> ever_authorized A s txs"
  shows "\<not> authorizedPatients (run s txs) A"
  using assms
proof (induction txs arbitrary: s)
  case Nil
  then show ?case by simp
next
  case (Cons tx txs)
  obtain e c where tx: "tx = (e, c)" by (cases tx)
  from Cons.prems have a: "\<not> (c = AuthorizePatient A \<and> succeeded (exec s e c))"
    and b: "\<not> ever_authorized A (step s (e, c)) txs"
    by (simp_all add: tx)
  have "\<not> authorizedPatients (step s (e, c)) A"
    using Cons.prems(1) a by (rule never_authorized_step)
  then have "\<not> authorizedPatients (run (step s (e, c)) txs) A"
    using b by (rule Cons.IH)
  then show ?case by (simp add: tx)
qed

lemma count_mono_step: "patientRecordCount s A \<le> patientRecordCount (step s tx) A"
proof (cases tx)
  case (Pair e c)
  have "unat (patientRecordCount s A) \<le> unat (patientRecordCount (step s (e, c)) A)"
    unfolding step_count by simp
  then show ?thesis by (simp only: Pair word_le_nat_alt)
qed

lemma count_mono_run: "patientRecordCount s A \<le> patientRecordCount (run s txs) A"
proof -
  have "unat (patientRecordCount s A) \<le> unat (patientRecordCount (run s txs) A)"
    unfolding run_count by simp
  then show ?thesis by (simp only: word_le_nat_alt)
qed

subsection \<open>Bounds and the empty id\<close>

lemma of_nat_ne_max:
  assumes "n < uint256_max"
  shows "(of_nat n :: uint256) \<noteq> - 1"
proof
  assume "(of_nat n :: uint256) = - 1"
  then have "unat (of_nat n :: uint256) = unat (- 1 :: uint256)" by simp
  moreover have "unat (of_nat n :: uint256) = n"
    using assms by (simp add: unat_of_nat uint256_max_def)
  ultimately show False using assms by (simp add: uint256_max_def unsigned_minus_1_eq_mask mask_eq_exp_minus_1)
qed

lemma below_max_iff: "unat (x :: uint256) < uint256_max \<longleftrightarrow> x \<noteq> - 1"
proof
  assume "unat x < uint256_max"
  then have "(of_nat (unat x) :: uint256) \<noteq> - 1" by (rule of_nat_ne_max)
  then show "x \<noteq> - 1" by simp
next
  assume "x \<noteq> - 1"
  then have "unat (x + 1) = Suc (unat x)" by (rule unat_inc)
  moreover have "unat (x + 1) < 2 ^ 256"
    using unsigned_less [of "x + 1"] by simp
  ultimately show "unat x < uint256_max" by (simp add: uint256_max_def)
qed

lemma count_le_total:
  assumes "unat (totalRecordsStored s) = (\<Sum>a\<in>UNIV. unat (patientRecordCount s a))"
  shows "unat (patientRecordCount s A) \<le> unat (totalRecordsStored s)"
proof -
  have "unat (patientRecordCount s A) \<le> (\<Sum>a\<in>UNIV. unat (patientRecordCount s a))"
    by (rule member_le_sum) simp_all
  with assms show ?thesis by simp
qed

lemma empty_id_unused_step:
  assumes "\<not> recordIdExists s []"
  shows "\<not> recordIdExists (step s tx) []"
proof (cases tx)
  case (Pair e c)
  show ?thesis
  proof (cases "is_add c")
    case True
    then obtain rid h t m where c: "c = AddMedicalRecord rid h t m"
      by (cases c) auto
    show ?thesis
    proof (cases "addMedicalRecord s e rid h t m")
      case (Inl err)
      then have "step s (e, c) = s" by (simp add: c)
      with assms show ?thesis by (simp only: Pair simp_thms)
    next
      case (Inr res)
      from Inr [unfolded add_success_iff] assms show ?thesis
        by (auto simp: Pair c Inr)
    qed
  next
    case False
    with assms show ?thesis
      by (simp only: Pair step_not_add_ids(2) [OF False] simp_thms)
  qed
qed

lemma empty_id_unused_run:
  "\<not> recordIdExists s [] \<Longrightarrow> \<not> recordIdExists (run s txs) []"
  by (induction txs arbitrary: s) (simp_all add: empty_id_unused_step)

text \<open>
  The counters are exhausted only by a run of at least \<open>2^256 - 1\<close> transactions:
  every transaction raises the total by at most one, and no count exceeds the total.
\<close>

lemma step_total_le:
  "unat (totalRecordsStored (step s tx)) \<le> Suc (unat (totalRecordsStored s))"
proof (cases tx)
  case (Pair e c)
  show ?thesis
  proof (cases "is_add c")
    case True
    then obtain rid h t m where c: "c = AddMedicalRecord rid h t m"
      by (cases c) auto
    show ?thesis
    proof (cases "addMedicalRecord s e rid h t m")
      case (Inl err)
      then have "step s (e, c) = s" by (simp add: c)
      then show ?thesis by (simp add: Pair del: step.simps)
    next
      case (Inr res)
      from Inr [unfolded add_success_iff] show ?thesis
        by (simp add: Pair c Inr unat_inc)
    qed
  next
    case False
    then have "totalRecordsStored (step s (e, c)) = totalRecordsStored s"
      by (cases c; simp add: fn_defs Let_def; fail)
    then show ?thesis by (simp add: Pair del: step.simps)
  qed
qed

lemma run_total_le:
  "unat (totalRecordsStored (run s txs)) \<le> unat (totalRecordsStored s) + length txs"
proof (induction txs arbitrary: s)
  case Nil
  show ?case by simp
next
  case (Cons tx txs)
  have "unat (totalRecordsStored (run (step s tx) txs))
        \<le> unat (totalRecordsStored (step s tx)) + length txs"
    by (rule Cons.IH)
  also have "\<dots> \<le> Suc (unat (totalRecordsStored s)) + length txs"
    using step_total_le [of s tx] by simp
  finally show ?case by simp
qed

lemma feasible_run_counters:
  assumes "length txs < uint256_max"
  shows "unat (totalRecordsStored (run (constructor e0) txs)) < uint256_max"
    and "unat (patientRecordCount (run (constructor e0) txs) A) < uint256_max"
proof -
  have "unat (totalRecordsStored (run (constructor e0) txs))
        \<le> unat (totalRecordsStored (constructor e0)) + length txs"
    by (rule run_total_le)
  then have le: "unat (totalRecordsStored (run (constructor e0) txs)) \<le> length txs"
    by (simp add: constructor_def)
  with assms show t: "unat (totalRecordsStored (run (constructor e0) txs)) < uint256_max"
    by simp
  have "unat (patientRecordCount (run (constructor e0) txs) A)
        \<le> unat (totalRecordsStored (run (constructor e0) txs))"
    using constructor_total by (intro count_le_total run_total)
  with t show "unat (patientRecordCount (run (constructor e0) txs) A) < uint256_max"
    by simp
qed

section \<open>The claims\<close>

text \<open>
  C1. After any run from the constructor no two records, under whatever addresses,
  have the same \<^verbatim>\<open>recordId\<close>, and \<^verbatim>\<open>recordIdExists\<close> marks exactly the ids of
  the stored records. \<^verbatim>\<open>addMedicalRecord\<close> with an id that is marked, by a record of
  any address and not only of the caller, never succeeds and leaves the storage as it
  was; for a caller that passes \<^verbatim>\<open>onlyAuthorizedPatient\<close> with a non-empty
  \<^verbatim>\<open>dataHash\<close> (the two checks the specification puts before the id check) it
  fails with \<^verbatim>\<open>Record ID already exists\<close>, kind \<open>AlreadyExists\<close>. A caller that
  passes \<^verbatim>\<open>onlyAuthorizedPatient\<close>, with an unmarked id and non-empty
  \<^verbatim>\<open>recordId\<close> and \<^verbatim>\<open>dataHash\<close>, succeeds. The total being below
  \<open>2^256 - 1\<close> is a bound of feasibility, not a condition on the caller: by
  \<open>feasible_run_counters\<close> it holds after every run of fewer than \<open>2^256 - 1\<close>
  transactions.
\<close>

theorem record_ids_unique:
  assumes "s = run (constructor e0) txs"
  shows
   "(\<forall>A i B j. i < patientRecordCount s A \<and> j < patientRecordCount s B \<and>
        recordId (patientRecords s A i) = recordId (patientRecords s B j) \<longrightarrow> A = B \<and> i = j) \<and>
    (recordIdExists s rid \<longleftrightarrow>
       (\<exists>B j. j < patientRecordCount s B \<and> recordId (patientRecords s B j) = rid)) \<and>
    (recordIdExists s rid \<longrightarrow>
       \<not> succeeded (addMedicalRecord s e rid h t m) \<and>
       step s (e, AddMedicalRecord rid h t m) = s \<and>
       (onlyAuthorizedPatient s e \<and> h \<noteq> [] \<longrightarrow>
          addMedicalRecord s e rid h t m = Inl (Revert ''Record ID already exists'') \<and>
          fails_with (addMedicalRecord s e rid h t m) AlreadyExists)) \<and>
    (onlyAuthorizedPatient s e \<and> rid \<noteq> [] \<and> h \<noteq> [] \<and> \<not> recordIdExists s rid \<and>
     unat (totalRecordsStored s) < uint256_max \<longrightarrow>
       succeeded (addMedicalRecord s e rid h t m))"
proof -
  have inv: "ids_consistent s"
    unfolding assms using ids_consistent_constructor by (rule ids_consistent_run)
  have uniq: "\<forall>A i B j. i < patientRecordCount s A \<and> j < patientRecordCount s B \<and>
        recordId (patientRecords s A i) = recordId (patientRecords s B j) \<longrightarrow> A = B \<and> i = j"
    using inv unfolding ids_consistent_def by blast
  have marked: "recordIdExists s rid \<longleftrightarrow>
       (\<exists>B j. j < patientRecordCount s B \<and> recordId (patientRecords s B j) = rid)"
    using inv unfolding ids_consistent_def by blast
  have "\<not> recordIdExists (constructor e0) []" by (simp add: constructor_def)
  then have ne: "\<not> recordIdExists s []"
    unfolding assms by (rule empty_id_unused_run)
  have used: "\<not> succeeded (addMedicalRecord s e rid h t m) \<and>
       step s (e, AddMedicalRecord rid h t m) = s \<and>
       (onlyAuthorizedPatient s e \<and> h \<noteq> [] \<longrightarrow>
          addMedicalRecord s e rid h t m = Inl (Revert ''Record ID already exists'') \<and>
          fails_with (addMedicalRecord s e rid h t m) AlreadyExists)"
    if ex: "recordIdExists s rid"
  proof -
    from ex ne have "rid \<noteq> []" by auto
    with ex show ?thesis by (simp add: addMedicalRecord_def)
  qed
  have tot: "unat (totalRecordsStored s) = (\<Sum>a\<in>UNIV. unat (patientRecordCount s a))"
    unfolding assms using constructor_total by (rule run_total)
  have fresh: "succeeded (addMedicalRecord s e rid h t m)"
    if "onlyAuthorizedPatient s e" "rid \<noteq> []" "h \<noteq> []" "\<not> recordIdExists s rid"
      "unat (totalRecordsStored s) < uint256_max"
  proof -
    from count_le_total [OF tot, of "msg_sender e"] that(5)
    have "unat (patientRecordCount s (msg_sender e)) < uint256_max" by simp
    with that(5) have "patientRecordCount s (msg_sender e) \<noteq> - 1" "totalRecordsStored s \<noteq> - 1"
      by (simp_all add: below_max_iff)
    with that(1-4) show ?thesis
      by (simp add: addMedicalRecord_def checked_inc_def)
  qed
  from uniq marked used fresh show ?thesis by blast
qed

theorem record_ids_unique_witness:
  "recordIdExists
     (run (constructor \<lparr>msg_sender = 1, block_timestamp = 0\<rparr>)
        [(\<lparr>msg_sender = 1, block_timestamp = 5\<rparr>, AuthorizePatient 2),
         (\<lparr>msg_sender = 2, block_timestamp = 10\<rparr>, AddMedicalRecord ''r1'' ''h1'' ''lab'' ''{}'')])
     ''r1'' \<and>
   addMedicalRecord
     (run (constructor \<lparr>msg_sender = 1, block_timestamp = 0\<rparr>)
        [(\<lparr>msg_sender = 1, block_timestamp = 5\<rparr>, AuthorizePatient 2),
         (\<lparr>msg_sender = 2, block_timestamp = 10\<rparr>, AddMedicalRecord ''r1'' ''h1'' ''lab'' ''{}'')])
     \<lparr>msg_sender = 1, block_timestamp = 11\<rparr> ''r1'' ''h2'' ''lab'' ''{}''
     = Inl (Revert ''Record ID already exists'') \<and>
   succeeded (addMedicalRecord
     (run (constructor \<lparr>msg_sender = 1, block_timestamp = 0\<rparr>)
        [(\<lparr>msg_sender = 1, block_timestamp = 5\<rparr>, AuthorizePatient 2),
         (\<lparr>msg_sender = 2, block_timestamp = 10\<rparr>, AddMedicalRecord ''r1'' ''h1'' ''lab'' ''{}'')])
     \<lparr>msg_sender = 1, block_timestamp = 11\<rparr> ''r2'' ''h2'' ''lab'' ''{}'')"
proof -
  let ?s = "run (constructor \<lparr>msg_sender = 1, block_timestamp = 0\<rparr>)
        [(\<lparr>msg_sender = 1, block_timestamp = 5\<rparr>, AuthorizePatient 2),
         (\<lparr>msg_sender = 2, block_timestamp = 10\<rparr>, AddMedicalRecord ''r1'' ''h1'' ''lab'' ''{}'')]"
  let ?e = "\<lparr>msg_sender = 1, block_timestamp = 11\<rparr>"
  have pre: "recordIdExists ?s ''r1''" "onlyAuthorizedPatient ?s ?e" "''h2'' \<noteq> []"
    "''r2'' \<noteq> []" "\<not> recordIdExists ?s ''r2''" "unat (totalRecordsStored ?s) < uint256_max"
    by (simp_all add: constructor_def fn_defs modifier_defs uint256_max_def)
  from record_ids_unique [OF refl, of _ _ "''r1''" ?e "''h2''" "''lab''" "''{}''"] pre(1,2,3)
  have a: "addMedicalRecord ?s ?e ''r1'' ''h2'' ''lab'' ''{}''
      = Inl (Revert ''Record ID already exists'')"
    by blast
  from record_ids_unique [OF refl, of _ _ "''r2''" ?e "''h2''" "''lab''" "''{}''"] pre(2-6)
  have b: "succeeded (addMedicalRecord ?s ?e ''r2'' ''h2'' ''lab'' ''{}'')"
    by blast
  from pre(1) a b show ?thesis by (intro conjI)
qed

text \<open>
  C2. For a caller that passes \<^verbatim>\<open>onlyAuthorizedPatient\<close>, with non-empty
  \<^verbatim>\<open>recordId\<close> and \<^verbatim>\<open>dataHash\<close> and an id not yet in \<^verbatim>\<open>recordIdExists\<close>,
  \<^verbatim>\<open>addMedicalRecord\<close> succeeds: it stores the new record at the index that was the
  caller's count, active, uploaded by the caller, stamped with the block time; it marks
  the id as used, raises the caller's count by one and the total by one, and emits
  \<^verbatim>\<open>MedicalRecordAdded\<close>. The other records, counts and ids are as before. The two
  counters being below \<open>2^256 - 1\<close>, where the checked increments would panic, is a
  bound of feasibility: by \<open>feasible_run_counters\<close> it holds after every run of fewer
  than \<open>2^256 - 1\<close> transactions.
\<close>

theorem addMedicalRecord_success:
  assumes "onlyAuthorizedPatient s e" and "rid \<noteq> []" and "h \<noteq> []"
    and "\<not> recordIdExists s rid"
    and "unat (patientRecordCount s (msg_sender e)) < uint256_max"
    and "unat (totalRecordsStored s) < uint256_max"
  shows "\<exists>s'. addMedicalRecord s e rid h t m =
       Inr (True, s',
         [MedicalRecordAdded (msg_sender e) rid t (block_timestamp e) (msg_sender e)]) \<and>
    patientRecords s' (msg_sender e) (patientRecordCount s (msg_sender e)) =
      \<lparr>recordId = rid, encryptedDataHash = h, recordType = t, timestamp = block_timestamp e,
       uploadedBy = msg_sender e, isActive = True, metadata = m\<rparr> \<and>
    recordIdExists s' rid \<and>
    unat (patientRecordCount s' (msg_sender e)) = unat (patientRecordCount s (msg_sender e)) + 1 \<and>
    unat (totalRecordsStored s') = unat (totalRecordsStored s) + 1 \<and>
    getMedicalRecord s' e (msg_sender e) (patientRecordCount s (msg_sender e)) =
      Inr \<lparr>recordId = rid, encryptedDataHash = h, recordType = t, timestamp = block_timestamp e,
       uploadedBy = msg_sender e, isActive = True, metadata = m\<rparr> \<and>
    (\<forall>A j. (A, j) \<noteq> (msg_sender e, patientRecordCount s (msg_sender e)) \<longrightarrow>
       patientRecords s' A j = patientRecords s A j) \<and>
    (\<forall>A. A \<noteq> msg_sender e \<longrightarrow> patientRecordCount s' A = patientRecordCount s A) \<and>
    (\<forall>x. x \<noteq> rid \<longrightarrow> recordIdExists s' x = recordIdExists s x)"
proof -
  from assms(5,6) have c: "patientRecordCount s (msg_sender e) \<noteq> - 1"
    and tot: "totalRecordsStored s \<noteq> - 1"
    by (simp_all add: below_max_iff)
  let ?s' = "s\<lparr>patientRecords := (patientRecords s)(msg_sender e :=
            (patientRecords s (msg_sender e))(patientRecordCount s (msg_sender e) :=
               \<lparr>recordId = rid, encryptedDataHash = h, recordType = t,
                timestamp = block_timestamp e, uploadedBy = msg_sender e,
                isActive = True, metadata = m\<rparr>)),
         recordIdExists := (recordIdExists s)(rid := True),
         patientRecordCount := (patientRecordCount s)(msg_sender e :=
            patientRecordCount s (msg_sender e) + 1),
         totalRecordsStored := totalRecordsStored s + 1\<rparr>"
  have ok: "addMedicalRecord s e rid h t m =
       Inr (True, ?s',
         [MedicalRecordAdded (msg_sender e) rid t (block_timestamp e) (msg_sender e)])"
    unfolding add_success_iff using assms(1-4) c tot by simp
  have lt: "patientRecordCount s (msg_sender e) < patientRecordCount s (msg_sender e) + 1"
    using c by (simp add: less_inc_iff)
  have "patientRecords ?s' (msg_sender e) (patientRecordCount s (msg_sender e)) =
      \<lparr>recordId = rid, encryptedDataHash = h, recordType = t, timestamp = block_timestamp e,
       uploadedBy = msg_sender e, isActive = True, metadata = m\<rparr>"
    and "recordIdExists ?s' rid"
    and "unat (patientRecordCount ?s' (msg_sender e))
          = unat (patientRecordCount s (msg_sender e)) + 1"
    and "unat (totalRecordsStored ?s') = unat (totalRecordsStored s) + 1"
    and "getMedicalRecord ?s' e (msg_sender e) (patientRecordCount s (msg_sender e)) =
      Inr \<lparr>recordId = rid, encryptedDataHash = h, recordType = t, timestamp = block_timestamp e,
       uploadedBy = msg_sender e, isActive = True, metadata = m\<rparr>"
    and "\<forall>A j. (A, j) \<noteq> (msg_sender e, patientRecordCount s (msg_sender e)) \<longrightarrow>
       patientRecords ?s' A j = patientRecords s A j"
    and "\<forall>A. A \<noteq> msg_sender e \<longrightarrow> patientRecordCount ?s' A = patientRecordCount s A"
    and "\<forall>x. x \<noteq> rid \<longrightarrow> recordIdExists ?s' x = recordIdExists s x"
    using c tot lt
    by (simp_all add: unat_inc getMedicalRecord_def onlyPatientOrOwner_def)
  with ok show ?thesis by blast
qed

theorem addMedicalRecord_success_witness:
  "addMedicalRecord
     (step (constructor \<lparr>msg_sender = 1, block_timestamp = 0\<rparr>)
        (\<lparr>msg_sender = 1, block_timestamp = 5\<rparr>, AuthorizePatient 2))
     \<lparr>msg_sender = 2, block_timestamp = 10\<rparr> ''REC-1'' ''0xabc'' ''lab'' ''{}''
   = Inr (True,
       \<lparr>patientRecords = (\<lambda>_ _. zero_record)(2 := (\<lambda>_. zero_record)(0 :=
            \<lparr>recordId = ''REC-1'', encryptedDataHash = ''0xabc'', recordType = ''lab'',
             timestamp = 10, uploadedBy = 2, isActive = True, metadata = ''{}''\<rparr>)),
        patientRecordCount = (\<lambda>_. 0)(2 := 1),
        recordIdExists = (\<lambda>_. False)(''REC-1'' := True),
        authorizedPatients = (\<lambda>_. False)(2 := True), owner = 1, patientRegistryContract = 0,
        totalRecordsStored = 1\<rparr>,
       [MedicalRecordAdded 2 ''REC-1'' ''lab'' 10 2])"
proof -
  let ?s = "step (constructor \<lparr>msg_sender = 1, block_timestamp = 0\<rparr>)
        (\<lparr>msg_sender = 1, block_timestamp = 5\<rparr>, AuthorizePatient 2)"
  let ?e = "\<lparr>msg_sender = 2, block_timestamp = 10\<rparr>"
  have pre: "onlyAuthorizedPatient ?s ?e" "''REC-1'' \<noteq> []" "''0xabc'' \<noteq> []"
    "\<not> recordIdExists ?s ''REC-1''"
    "unat (patientRecordCount ?s (msg_sender ?e)) < uint256_max"
    "unat (totalRecordsStored ?s) < uint256_max"
    by (simp_all add: constructor_def fn_defs modifier_defs uint256_max_def)
  from addMedicalRecord_success [OF pre, of "''lab''" "''{}''"]
  obtain s' where "addMedicalRecord ?s ?e ''REC-1'' ''0xabc'' ''lab'' ''{}'' =
       Inr (True, s', [MedicalRecordAdded (msg_sender ?e) ''REC-1'' ''lab'' (block_timestamp ?e)
          (msg_sender ?e)])"
    by blast
  then show ?thesis
    by (simp add: constructor_def fn_defs modifier_defs)
qed

text \<open>
  C3. Deactivation is one-way: a record below its address's count that is inactive is
  still there and still inactive after every run of transactions.
  \<^verbatim>\<open>deactivateMedicalRecord\<close> called by the record's address on such a record fails
  with \<^verbatim>\<open>Record already inactive\<close> (kind \<open>InvalidState\<close>) for every caller that
  passes \<^verbatim>\<open>onlyAuthorizedPatient\<close>, as the specification requires of every write;
  a caller that does not pass is refused as unauthorized before the record is looked
  at. In both cases the storage is as before and the record stays inactive.
\<close>

theorem deactivation_one_way:
  assumes "i < patientRecordCount s A" and "\<not> isActive (patientRecords s A i)"
  shows
   "i < patientRecordCount (run s txs) A \<and> \<not> isActive (patientRecords (run s txs) A i) \<and>
    (msg_sender e = A \<longrightarrow>
       (onlyAuthorizedPatient s e \<longrightarrow>
          deactivateMedicalRecord s e i = Inl (Revert ''Record already inactive'') \<and>
          fails_with (deactivateMedicalRecord s e i) InvalidState) \<and>
       (\<not> onlyAuthorizedPatient s e \<longrightarrow>
          deactivateMedicalRecord s e i = Inl (Revert ''Not authorized to add records'') \<and>
          fails_with (deactivateMedicalRecord s e i) Unauthorized) \<and>
       step s (e, DeactivateMedicalRecord i) = s \<and>
       \<not> isActive (patientRecords (step s (e, DeactivateMedicalRecord i)) A i))"
proof -
  have "step s (e, DeactivateMedicalRecord i) = s" if "msg_sender e = A"
    using that assms by (simp add: deactivateMedicalRecord_def)
  then show ?thesis
    using inactive_run [OF assms, of txs] assms
    by (auto simp: deactivateMedicalRecord_def)
qed

theorem deactivation_one_way_witness:
  "\<not> isActive (patientRecords
     (run (step (constructor \<lparr>msg_sender = 1, block_timestamp = 0\<rparr>)
             (\<lparr>msg_sender = 1, block_timestamp = 10\<rparr>, AddMedicalRecord ''r1'' ''h1'' ''lab'' ''{}''))
        [(\<lparr>msg_sender = 1, block_timestamp = 11\<rparr>, DeactivateMedicalRecord 0),
         (\<lparr>msg_sender = 1, block_timestamp = 12\<rparr>, UpdateMedicalRecord 0 ''h2'' ''m2''),
         (\<lparr>msg_sender = 1, block_timestamp = 13\<rparr>, AddMedicalRecord ''r2'' ''h2'' ''lab'' ''{}'')])
     1 0) \<and>
   deactivateMedicalRecord
     (step (step (constructor \<lparr>msg_sender = 1, block_timestamp = 0\<rparr>)
             (\<lparr>msg_sender = 1, block_timestamp = 10\<rparr>, AddMedicalRecord ''r1'' ''h1'' ''lab'' ''{}''))
        (\<lparr>msg_sender = 1, block_timestamp = 11\<rparr>, DeactivateMedicalRecord 0))
     \<lparr>msg_sender = 1, block_timestamp = 12\<rparr> 0
     = Inl (Revert ''Record already inactive'')"
proof -
  let ?s = "step (step (constructor \<lparr>msg_sender = 1, block_timestamp = 0\<rparr>)
             (\<lparr>msg_sender = 1, block_timestamp = 10\<rparr>, AddMedicalRecord ''r1'' ''h1'' ''lab'' ''{}''))
        (\<lparr>msg_sender = 1, block_timestamp = 11\<rparr>, DeactivateMedicalRecord 0)"
  have pre: "0 < patientRecordCount ?s 1" "\<not> isActive (patientRecords ?s 1 0)"
    "msg_sender \<lparr>msg_sender = 1, block_timestamp = 12\<rparr> = (1::address)"
    "onlyAuthorizedPatient ?s \<lparr>msg_sender = 1, block_timestamp = 12\<rparr>"
    by (simp_all add: constructor_def fn_defs modifier_defs)
  from deactivation_one_way [OF pre(1,2),
      of "[(\<lparr>msg_sender = 1, block_timestamp = 12\<rparr>, UpdateMedicalRecord 0 ''h2'' ''m2''),
           (\<lparr>msg_sender = 1, block_timestamp = 13\<rparr>, AddMedicalRecord ''r2'' ''h2'' ''lab'' ''{}'')]"
      "\<lparr>msg_sender = 1, block_timestamp = 12\<rparr>"] pre(3,4)
  show ?thesis by simp
qed

text \<open>
  C4. A successful \<^verbatim>\<open>updateMedicalRecord(index, dataHash, metadata)\<close> replaces the
  \<^verbatim>\<open>encryptedDataHash\<close> and \<^verbatim>\<open>metadata\<close> of the caller's record at \<open>index\<close> and
  nothing else: the other five fields of that record (the timestamp among them), every
  other record, the counts, the total, the id index, the authorization set, the owner
  and the registry address are as before.
\<close>

theorem updateMedicalRecord_frame:
  assumes "updateMedicalRecord s e i h m = Inr (b, s', evs)"
  shows "encryptedDataHash (patientRecords s' (msg_sender e) i) = h \<and>
    metadata (patientRecords s' (msg_sender e) i) = m \<and>
    timestamp (patientRecords s' (msg_sender e) i) = timestamp (patientRecords s (msg_sender e) i) \<and>
    recordId (patientRecords s' (msg_sender e) i) = recordId (patientRecords s (msg_sender e) i) \<and>
    recordType (patientRecords s' (msg_sender e) i)
      = recordType (patientRecords s (msg_sender e) i) \<and>
    uploadedBy (patientRecords s' (msg_sender e) i)
      = uploadedBy (patientRecords s (msg_sender e) i) \<and>
    isActive (patientRecords s' (msg_sender e) i) = isActive (patientRecords s (msg_sender e) i) \<and>
    (\<forall>A j. (A, j) \<noteq> (msg_sender e, i) \<longrightarrow> patientRecords s' A j = patientRecords s A j) \<and>
    patientRecordCount s' = patientRecordCount s \<and>
    totalRecordsStored s' = totalRecordsStored s \<and>
    recordIdExists s' = recordIdExists s \<and>
    authorizedPatients s' = authorizedPatients s \<and>
    owner s' = owner s \<and>
    patientRegistryContract s' = patientRegistryContract s"
proof -
  from assms have s': "s' = s\<lparr>patientRecords := (patientRecords s)(msg_sender e :=
        (patientRecords s (msg_sender e))(i :=
           (patientRecords s (msg_sender e) i)\<lparr>encryptedDataHash := h, metadata := m\<rparr>))\<rparr>"
    by (simp add: updateMedicalRecord_def Let_def split: if_splits)
  show ?thesis
    unfolding s' by simp
qed

theorem updateMedicalRecord_frame_witness:
  "updateMedicalRecord
     (run (constructor \<lparr>msg_sender = 1, block_timestamp = 0\<rparr>)
        [(\<lparr>msg_sender = 1, block_timestamp = 10\<rparr>, AddMedicalRecord ''r1'' ''h1'' ''lab'' ''{}'')])
     \<lparr>msg_sender = 1, block_timestamp = 20\<rparr> 0 ''h2'' ''m2''
   = Inr (True,
       \<lparr>patientRecords = (\<lambda>_ _. zero_record)(1 := (\<lambda>_. zero_record)(0 :=
            \<lparr>recordId = ''r1'', encryptedDataHash = ''h2'', recordType = ''lab'',
             timestamp = 10, uploadedBy = 1, isActive = True, metadata = ''m2''\<rparr>)),
        patientRecordCount = (\<lambda>_. 0)(1 := 1),
        recordIdExists = (\<lambda>_. False)(''r1'' := True),
        authorizedPatients = (\<lambda>_. False), owner = 1, patientRegistryContract = 0,
        totalRecordsStored = 1\<rparr>,
       [MedicalRecordUpdated 1 ''r1'' 20]) \<and>
   timestamp (patientRecords
     (step (run (constructor \<lparr>msg_sender = 1, block_timestamp = 0\<rparr>)
        [(\<lparr>msg_sender = 1, block_timestamp = 10\<rparr>, AddMedicalRecord ''r1'' ''h1'' ''lab'' ''{}'')])
       (\<lparr>msg_sender = 1, block_timestamp = 20\<rparr>, UpdateMedicalRecord 0 ''h2'' ''m2'')) 1 0) = 10"
proof -
  have u: "updateMedicalRecord
     (run (constructor \<lparr>msg_sender = 1, block_timestamp = 0\<rparr>)
        [(\<lparr>msg_sender = 1, block_timestamp = 10\<rparr>, AddMedicalRecord ''r1'' ''h1'' ''lab'' ''{}'')])
     \<lparr>msg_sender = 1, block_timestamp = 20\<rparr> 0 ''h2'' ''m2''
   = Inr (True,
       \<lparr>patientRecords = (\<lambda>_ _. zero_record)(1 := (\<lambda>_. zero_record)(0 :=
            \<lparr>recordId = ''r1'', encryptedDataHash = ''h2'', recordType = ''lab'',
             timestamp = 10, uploadedBy = 1, isActive = True, metadata = ''m2''\<rparr>)),
        patientRecordCount = (\<lambda>_. 0)(1 := 1),
        recordIdExists = (\<lambda>_. False)(''r1'' := True),
        authorizedPatients = (\<lambda>_. False), owner = 1, patientRegistryContract = 0,
        totalRecordsStored = 1\<rparr>,
       [MedicalRecordUpdated 1 ''r1'' 20])"
    by (simp add: constructor_def fn_defs modifier_defs)
  from updateMedicalRecord_frame [OF u] u show ?thesis
    by (simp add: constructor_def fn_defs modifier_defs)
qed

text \<open>
  C5. For a caller that passes \<^verbatim>\<open>onlyAuthorizedPatient\<close>,
  \<^verbatim>\<open>updateMedicalRecord\<close> checks in the order the specification lists: it fails
  with kind \<open>OutOfRange\<close> if the index is not below the caller's count; with kind
  \<open>InvalidState\<close> if the record at the index is inactive; with kind
  \<open>InvalidArgument\<close> if \<^verbatim>\<open>dataHash\<close> is empty and the record is there and
  active. After any failure the storage, and with it the record's
  \<^verbatim>\<open>encryptedDataHash\<close> and \<^verbatim>\<open>metadata\<close>, is as before.
\<close>

theorem updateMedicalRecord_failures:
  assumes "onlyAuthorizedPatient s e"
  shows
   "(\<not> i < patientRecordCount s (msg_sender e) \<longrightarrow>
       updateMedicalRecord s e i h m = Inl (Revert ''Invalid record index'') \<and>
       fails_with (updateMedicalRecord s e i h m) OutOfRange) \<and>
    (i < patientRecordCount s (msg_sender e) \<and> \<not> isActive (patientRecords s (msg_sender e) i) \<longrightarrow>
       updateMedicalRecord s e i h m = Inl (Revert ''Record not active'') \<and>
       fails_with (updateMedicalRecord s e i h m) InvalidState) \<and>
    (i < patientRecordCount s (msg_sender e) \<and> isActive (patientRecords s (msg_sender e) i) \<and> h = [] \<longrightarrow>
       updateMedicalRecord s e i h m = Inl (Revert ''Data hash cannot be empty'') \<and>
       fails_with (updateMedicalRecord s e i h m) InvalidArgument) \<and>
    (\<not> succeeded (updateMedicalRecord s e i h m) \<longrightarrow>
       step s (e, UpdateMedicalRecord i h m) = s \<and>
       encryptedDataHash (patientRecords (step s (e, UpdateMedicalRecord i h m)) (msg_sender e) i)
         = encryptedDataHash (patientRecords s (msg_sender e) i) \<and>
       metadata (patientRecords (step s (e, UpdateMedicalRecord i h m)) (msg_sender e) i)
         = metadata (patientRecords s (msg_sender e) i))"
proof -
  have "step s (e, UpdateMedicalRecord i h m) = s"
    if "\<not> succeeded (updateMedicalRecord s e i h m)"
    using that by (cases "updateMedicalRecord s e i h m") simp_all
  then show ?thesis
    using assms by (simp add: updateMedicalRecord_def)
qed

theorem updateMedicalRecord_failures_witness:
  "updateMedicalRecord (constructor \<lparr>msg_sender = 1, block_timestamp = 0\<rparr>)
     \<lparr>msg_sender = 1, block_timestamp = 12\<rparr> 0 ''h'' ''m''
     = Inl (Revert ''Invalid record index'') \<and>
   updateMedicalRecord
     (run (constructor \<lparr>msg_sender = 1, block_timestamp = 0\<rparr>)
        [(\<lparr>msg_sender = 1, block_timestamp = 10\<rparr>, AddMedicalRecord ''r1'' ''h1'' ''lab'' ''{}''),
         (\<lparr>msg_sender = 1, block_timestamp = 11\<rparr>, DeactivateMedicalRecord 0)])
     \<lparr>msg_sender = 1, block_timestamp = 12\<rparr> 0 ''h'' ''m''
     = Inl (Revert ''Record not active'') \<and>
   updateMedicalRecord
     (run (constructor \<lparr>msg_sender = 1, block_timestamp = 0\<rparr>)
        [(\<lparr>msg_sender = 1, block_timestamp = 10\<rparr>, AddMedicalRecord ''r1'' ''h1'' ''lab'' ''{}'')])
     \<lparr>msg_sender = 1, block_timestamp = 12\<rparr> 0 [] ''m''
     = Inl (Revert ''Data hash cannot be empty'') \<and>
   encryptedDataHash (patientRecords
     (step (run (constructor \<lparr>msg_sender = 1, block_timestamp = 0\<rparr>)
        [(\<lparr>msg_sender = 1, block_timestamp = 10\<rparr>, AddMedicalRecord ''r1'' ''h1'' ''lab'' ''{}'')])
        (\<lparr>msg_sender = 1, block_timestamp = 12\<rparr>, UpdateMedicalRecord 0 [] ''m'')) 1 0) = ''h1''"
  using
    updateMedicalRecord_failures [of "constructor \<lparr>msg_sender = 1, block_timestamp = 0\<rparr>"
      "\<lparr>msg_sender = 1, block_timestamp = 12\<rparr>" 0 "''h''" "''m''"]
    updateMedicalRecord_failures [of
      "run (constructor \<lparr>msg_sender = 1, block_timestamp = 0\<rparr>)
        [(\<lparr>msg_sender = 1, block_timestamp = 10\<rparr>, AddMedicalRecord ''r1'' ''h1'' ''lab'' ''{}''),
         (\<lparr>msg_sender = 1, block_timestamp = 11\<rparr>, DeactivateMedicalRecord 0)]"
      "\<lparr>msg_sender = 1, block_timestamp = 12\<rparr>" 0 "''h''" "''m''"]
    updateMedicalRecord_failures [of
      "run (constructor \<lparr>msg_sender = 1, block_timestamp = 0\<rparr>)
        [(\<lparr>msg_sender = 1, block_timestamp = 10\<rparr>, AddMedicalRecord ''r1'' ''h1'' ''lab'' ''{}'')]"
      "\<lparr>msg_sender = 1, block_timestamp = 12\<rparr>" 0 "[]" "''m''"]
  by (simp add: constructor_def fn_defs modifier_defs)

text \<open>
  C6. \<^verbatim>\<open>getPatientRecordIds(A)\<close>, called by \<open>A\<close> itself or by the owner, returns
  exactly the ids of the active records of \<open>A\<close>, in index order, and never panics:
  the result is the list of the records at the indices \<open>0, \<dots>, count - 1\<close>, filtered
  by \<open>isActive\<close>, mapped to their ids.
\<close>

theorem getPatientRecordIds_active_in_order:
  assumes "msg_sender e = A \<or> msg_sender e = owner s"
  shows "getPatientRecordIds s e A =
    Inr (map recordId (filter isActive
          (map (patientRecords s A) (indices (patientRecordCount s A)))))"
  using assms by (intro getPatientRecordIds_eq) (simp add: onlyPatientOrOwner_def)

text \<open>
  The example of the specification: ids \<^verbatim>\<open>r1\<close>, \<^verbatim>\<open>r2\<close>, \<^verbatim>\<open>r3\<close> added under the
  deployer \<open>1\<close>, index 1 deactivated.
\<close>

theorem getPatientRecordIds_example:
  "(msg_sender \<lparr>msg_sender = 1, block_timestamp = 14\<rparr> = (1::address) \<or>
    msg_sender \<lparr>msg_sender = 1, block_timestamp = 14\<rparr> =
      owner (run (constructor \<lparr>msg_sender = 1, block_timestamp = 0\<rparr>)
        [(\<lparr>msg_sender = 1, block_timestamp = 10\<rparr>, AddMedicalRecord ''r1'' ''h1'' ''lab'' ''{}''),
         (\<lparr>msg_sender = 1, block_timestamp = 11\<rparr>, AddMedicalRecord ''r2'' ''h2'' ''lab'' ''{}''),
         (\<lparr>msg_sender = 1, block_timestamp = 12\<rparr>, AddMedicalRecord ''r3'' ''h3'' ''lab'' ''{}''),
         (\<lparr>msg_sender = 1, block_timestamp = 13\<rparr>, DeactivateMedicalRecord 1)])) \<and>
   getPatientRecordIds
     (run (constructor \<lparr>msg_sender = 1, block_timestamp = 0\<rparr>)
        [(\<lparr>msg_sender = 1, block_timestamp = 10\<rparr>, AddMedicalRecord ''r1'' ''h1'' ''lab'' ''{}''),
         (\<lparr>msg_sender = 1, block_timestamp = 11\<rparr>, AddMedicalRecord ''r2'' ''h2'' ''lab'' ''{}''),
         (\<lparr>msg_sender = 1, block_timestamp = 12\<rparr>, AddMedicalRecord ''r3'' ''h3'' ''lab'' ''{}''),
         (\<lparr>msg_sender = 1, block_timestamp = 13\<rparr>, DeactivateMedicalRecord 1)])
     \<lparr>msg_sender = 1, block_timestamp = 14\<rparr> 1
   = Inr [''r1'', ''r3'']"
  using getPatientRecordIds_active_in_order [of "\<lparr>msg_sender = 1, block_timestamp = 14\<rparr>" 1
     "run (constructor \<lparr>msg_sender = 1, block_timestamp = 0\<rparr>)
        [(\<lparr>msg_sender = 1, block_timestamp = 10\<rparr>, AddMedicalRecord ''r1'' ''h1'' ''lab'' ''{}''),
         (\<lparr>msg_sender = 1, block_timestamp = 11\<rparr>, AddMedicalRecord ''r2'' ''h2'' ''lab'' ''{}''),
         (\<lparr>msg_sender = 1, block_timestamp = 12\<rparr>, AddMedicalRecord ''r3'' ''h3'' ''lab'' ''{}''),
         (\<lparr>msg_sender = 1, block_timestamp = 13\<rparr>, DeactivateMedicalRecord 1)]"]
  by (simp add: constructor_def fn_defs modifier_defs indices_def upt_rec)

text \<open>
  C7. \<^verbatim>\<open>authorizePatient\<close> is for the owner only. Called by anyone else it reverts
  with the \<^verbatim>\<open>onlyOwner\<close> reason (kind \<open>Unauthorized\<close>) and the authorization set
  is as before. Called by the owner with the zero address it reverts with
  \<^verbatim>\<open>Invalid address\<close> (kind \<open>InvalidArgument\<close>); with any other address it
  succeeds and that address is a member of the authorization set afterwards.
\<close>

theorem authorizePatient_owner_only:
  "(msg_sender e \<noteq> owner s \<longrightarrow>
      authorizePatient s e a = Inl (Revert ''Only owner can call this function'') \<and>
      fails_with (authorizePatient s e a) Unauthorized \<and>
      authorizedPatients (step s (e, AuthorizePatient a)) = authorizedPatients s) \<and>
   (msg_sender e = owner s \<and> a = 0 \<longrightarrow>
      authorizePatient s e a = Inl (Revert ''Invalid address'') \<and>
      fails_with (authorizePatient s e a) InvalidArgument \<and>
      authorizedPatients (step s (e, AuthorizePatient a)) = authorizedPatients s) \<and>
   (msg_sender e = owner s \<and> a \<noteq> 0 \<longrightarrow>
      authorizePatient s e a =
        Inr (True, s\<lparr>authorizedPatients := (authorizedPatients s)(a := True)\<rparr>,
             [PatientAuthorized a (block_timestamp e)]) \<and>
      authorizedPatients (step s (e, AuthorizePatient a)) a \<and>
      isPatientAuthorized (step s (e, AuthorizePatient a)) a)"
  by (simp add: authorizePatient_def onlyOwner_def isPatientAuthorized_def)

theorem authorizePatient_owner_only_witness:
  "authorizePatient (constructor \<lparr>msg_sender = 1, block_timestamp = 0\<rparr>)
     \<lparr>msg_sender = 2, block_timestamp = 5\<rparr> 3
     = Inl (Revert ''Only owner can call this function'') \<and>
   \<not> authorizedPatients (step (constructor \<lparr>msg_sender = 1, block_timestamp = 0\<rparr>)
       (\<lparr>msg_sender = 2, block_timestamp = 5\<rparr>, AuthorizePatient 3)) 3 \<and>
   authorizePatient (constructor \<lparr>msg_sender = 1, block_timestamp = 0\<rparr>)
     \<lparr>msg_sender = 1, block_timestamp = 5\<rparr> 0
     = Inl (Revert ''Invalid address'') \<and>
   authorizedPatients (step (constructor \<lparr>msg_sender = 1, block_timestamp = 0\<rparr>)
       (\<lparr>msg_sender = 1, block_timestamp = 5\<rparr>, AuthorizePatient 3)) 3"
  using
    authorizePatient_owner_only [of "\<lparr>msg_sender = 2, block_timestamp = 5\<rparr>"
      "constructor \<lparr>msg_sender = 1, block_timestamp = 0\<rparr>" 3]
    authorizePatient_owner_only [of "\<lparr>msg_sender = 1, block_timestamp = 5\<rparr>"
      "constructor \<lparr>msg_sender = 1, block_timestamp = 0\<rparr>" 0]
    authorizePatient_owner_only [of "\<lparr>msg_sender = 1, block_timestamp = 5\<rparr>"
      "constructor \<lparr>msg_sender = 1, block_timestamp = 0\<rparr>" 3]
  by (simp add: constructor_def)

text \<open>
  C8, as the specification states it, fails when the owner transfers the ownership to
  itself: the call succeeds and the prior owner keeps every privilege. Here the owner
  \<open>1\<close> calls \<^verbatim>\<open>transferOwnership(1)\<close>, and its next \<^verbatim>\<open>authorizePatient(2)\<close>
  succeeds.
\<close>

theorem transferOwnership_self_counterexample:
  "msg_sender \<lparr>msg_sender = 1, block_timestamp = 5\<rparr>
     = owner (constructor \<lparr>msg_sender = 1, block_timestamp = 0\<rparr>) \<and>
   (1::address) \<noteq> 0 \<and>
   succeeded (transferOwnership (constructor \<lparr>msg_sender = 1, block_timestamp = 0\<rparr>)
     \<lparr>msg_sender = 1, block_timestamp = 5\<rparr> 1) \<and>
   succeeded (authorizePatient
     (step (constructor \<lparr>msg_sender = 1, block_timestamp = 0\<rparr>)
        (\<lparr>msg_sender = 1, block_timestamp = 5\<rparr>, TransferOwnership 1))
     \<lparr>msg_sender = 1, block_timestamp = 6\<rparr> 2) \<and>
   \<not> fails_with (authorizePatient
     (step (constructor \<lparr>msg_sender = 1, block_timestamp = 0\<rparr>)
        (\<lparr>msg_sender = 1, block_timestamp = 5\<rparr>, TransferOwnership 1))
     \<lparr>msg_sender = 1, block_timestamp = 6\<rparr> 2) Unauthorized"
  by (simp add: constructor_def fn_defs modifier_defs)

text \<open>
  C8, amended. Called by the owner with a non-zero address, \<^verbatim>\<open>transferOwnership\<close>
  makes that address the owner. If the new owner is another address than the caller,
  the caller is no longer the owner from the next call on: its calls of the four
  \<^verbatim>\<open>onlyOwner\<close> functions and its reads of other addresses' records fail as
  unauthorized, and it passes \<^verbatim>\<open>onlyAuthorizedPatient\<close> only if it is on the
  allow-list. Called by the owner with the zero address, \<^verbatim>\<open>transferOwnership\<close>
  reverts with kind \<open>InvalidArgument\<close> and the owner is as before.
\<close>

theorem transferOwnership_correct:
  assumes "msg_sender e = owner s"
  shows
   "(a \<noteq> 0 \<longrightarrow>
       transferOwnership s e a = Inr (s\<lparr>owner := a\<rparr>, []) \<and>
       owner (step s (e, TransferOwnership a)) = a \<and>
       (a \<noteq> msg_sender e \<and> msg_sender e' = msg_sender e \<longrightarrow>
          \<not> onlyOwner (step s (e, TransferOwnership a)) e' \<and>
          fails_with (authorizePatient (step s (e, TransferOwnership a)) e' x) Unauthorized \<and>
          fails_with (deauthorizePatient (step s (e, TransferOwnership a)) e' x) Unauthorized \<and>
          fails_with (transferOwnership (step s (e, TransferOwnership a)) e' x) Unauthorized \<and>
          fails_with (setPatientRegistryContract (step s (e, TransferOwnership a)) e' x)
            Unauthorized \<and>
          (B \<noteq> msg_sender e \<longrightarrow>
             fails_with (getMedicalRecord (step s (e, TransferOwnership a)) e' B j) Unauthorized \<and>
             fails_with (getPatientRecordIds (step s (e, TransferOwnership a)) e' B)
               Unauthorized) \<and>
          onlyAuthorizedPatient (step s (e, TransferOwnership a)) e'
            = authorizedPatients s (msg_sender e))) \<and>
    (a = 0 \<longrightarrow>
       transferOwnership s e a = Inl (Revert ''New owner cannot be zero address'') \<and>
       fails_with (transferOwnership s e a) InvalidArgument \<and>
       owner (step s (e, TransferOwnership a)) = owner s)"
proof (cases "a = 0")
  case True
  with assms show ?thesis
    by (simp add: transferOwnership_def onlyOwner_def)
next
  case False
  with assms have st: "step s (e, TransferOwnership a) = s\<lparr>owner := a\<rparr>"
    and tr: "transferOwnership s e a = Inr (s\<lparr>owner := a\<rparr>, [])"
    by (simp_all add: transferOwnership_def onlyOwner_def)
  show ?thesis
    unfolding st tr using False assms
    by (auto simp: fn_defs modifier_defs getMedicalRecord_def getPatientRecordIds_def)
qed

theorem transferOwnership_correct_witness:
  "transferOwnership (constructor \<lparr>msg_sender = 1, block_timestamp = 0\<rparr>)
     \<lparr>msg_sender = 1, block_timestamp = 5\<rparr> 2
     = Inr ((constructor \<lparr>msg_sender = 1, block_timestamp = 0\<rparr>)\<lparr>owner := 2\<rparr>, []) \<and>
   fails_with (authorizePatient
     (step (constructor \<lparr>msg_sender = 1, block_timestamp = 0\<rparr>)
        (\<lparr>msg_sender = 1, block_timestamp = 5\<rparr>, TransferOwnership 2))
     \<lparr>msg_sender = 1, block_timestamp = 6\<rparr> 3) Unauthorized \<and>
   transferOwnership (constructor \<lparr>msg_sender = 1, block_timestamp = 0\<rparr>)
     \<lparr>msg_sender = 1, block_timestamp = 5\<rparr> 0
     = Inl (Revert ''New owner cannot be zero address'') \<and>
   owner (step (constructor \<lparr>msg_sender = 1, block_timestamp = 0\<rparr>)
        (\<lparr>msg_sender = 1, block_timestamp = 5\<rparr>, TransferOwnership 0)) = 1"
proof -
  have own: "msg_sender \<lparr>msg_sender = 1, block_timestamp = 5\<rparr>
      = owner (constructor \<lparr>msg_sender = 1, block_timestamp = 0\<rparr>)"
    by (simp add: constructor_def)
  have ne: "(2::address) \<noteq> 0" "(2::address) \<noteq> msg_sender \<lparr>msg_sender = 1, block_timestamp = 5\<rparr>"
    "msg_sender \<lparr>msg_sender = 1, block_timestamp = 6\<rparr>
       = msg_sender \<lparr>msg_sender = 1, block_timestamp = 5\<rparr>"
    by simp_all
  from transferOwnership_correct [OF own, of 2 "\<lparr>msg_sender = 1, block_timestamp = 6\<rparr>" 3] ne
  have a: "transferOwnership (constructor \<lparr>msg_sender = 1, block_timestamp = 0\<rparr>)
     \<lparr>msg_sender = 1, block_timestamp = 5\<rparr> 2
     = Inr ((constructor \<lparr>msg_sender = 1, block_timestamp = 0\<rparr>)\<lparr>owner := 2\<rparr>, [])"
    "fails_with (authorizePatient
     (step (constructor \<lparr>msg_sender = 1, block_timestamp = 0\<rparr>)
        (\<lparr>msg_sender = 1, block_timestamp = 5\<rparr>, TransferOwnership 2))
     \<lparr>msg_sender = 1, block_timestamp = 6\<rparr> 3) Unauthorized"
    by blast+
  from transferOwnership_correct [OF own, of 0]
  have b: "transferOwnership (constructor \<lparr>msg_sender = 1, block_timestamp = 0\<rparr>)
     \<lparr>msg_sender = 1, block_timestamp = 5\<rparr> 0
     = Inl (Revert ''New owner cannot be zero address'')"
    "owner (step (constructor \<lparr>msg_sender = 1, block_timestamp = 0\<rparr>)
        (\<lparr>msg_sender = 1, block_timestamp = 5\<rparr>, TransferOwnership 0))
     = owner (constructor \<lparr>msg_sender = 1, block_timestamp = 0\<rparr>)"
    by blast+
  have "owner (constructor \<lparr>msg_sender = 1, block_timestamp = 0\<rparr>) = 1"
    by (simp add: constructor_def)
  with a b show ?thesis by (simp only: simp_thms)
qed

text \<open>
  C9. The record counts only grow and account for the successful adds. For every
  storage and every transaction the count of every address after the transaction is at
  least the count before, and a deactivation leaves it as it is; after any run from the
  constructor the count of \<open>A\<close> is the number of successful \<^verbatim>\<open>addMedicalRecord\<close>
  calls sent by \<open>A\<close>, and the global total is the sum of the counts of all addresses.
\<close>

theorem record_count_accounting:
  "getPatientRecordCount s A \<le> getPatientRecordCount (step s tx) A \<and>
   getPatientRecordCount s A \<le> getPatientRecordCount (run s txs) A \<and>
   getPatientRecordCount (step s (e, DeactivateMedicalRecord i)) A = getPatientRecordCount s A \<and>
   unat (getPatientRecordCount (run (constructor e0) txs) A)
     = successful_adds A (constructor e0) txs \<and>
   unat (getTotalRecords (run (constructor e0) txs))
     = (\<Sum>a\<in>UNIV. unat (getPatientRecordCount (run (constructor e0) txs) a))"
proof -
  have "patientRecordCount (step s (e, DeactivateMedicalRecord i)) = patientRecordCount s"
    by (rule step_not_add_ids) simp
  moreover have "unat (patientRecordCount (run (constructor e0) txs) A)
      = successful_adds A (constructor e0) txs"
    unfolding run_count by (simp add: constructor_def)
  moreover have "unat (totalRecordsStored (run (constructor e0) txs))
     = (\<Sum>a\<in>UNIV. unat (patientRecordCount (run (constructor e0) txs) a))"
    using constructor_total by (rule run_total)
  ultimately show ?thesis
    unfolding getPatientRecordCount_def getTotalRecords_def
    using count_mono_step [of s A tx] count_mono_run [of s A txs] by simp
qed

theorem record_count_accounting_witness:
  "getPatientRecordCount
     (run (constructor \<lparr>msg_sender = 1, block_timestamp = 0\<rparr>)
        [(\<lparr>msg_sender = 1, block_timestamp = 10\<rparr>, AddMedicalRecord ''r1'' ''h1'' ''lab'' ''{}''),
         (\<lparr>msg_sender = 1, block_timestamp = 11\<rparr>, AddMedicalRecord ''r1'' ''h2'' ''lab'' ''{}''),
         (\<lparr>msg_sender = 1, block_timestamp = 12\<rparr>, AddMedicalRecord ''r3'' ''h3'' ''lab'' ''{}''),
         (\<lparr>msg_sender = 1, block_timestamp = 13\<rparr>, DeactivateMedicalRecord 1)]) 1 = 2 \<and>
   successful_adds 1 (constructor \<lparr>msg_sender = 1, block_timestamp = 0\<rparr>)
        [(\<lparr>msg_sender = 1, block_timestamp = 10\<rparr>, AddMedicalRecord ''r1'' ''h1'' ''lab'' ''{}''),
         (\<lparr>msg_sender = 1, block_timestamp = 11\<rparr>, AddMedicalRecord ''r1'' ''h2'' ''lab'' ''{}''),
         (\<lparr>msg_sender = 1, block_timestamp = 12\<rparr>, AddMedicalRecord ''r3'' ''h3'' ''lab'' ''{}''),
         (\<lparr>msg_sender = 1, block_timestamp = 13\<rparr>, DeactivateMedicalRecord 1)] = 2 \<and>
   (\<Sum>a\<in>UNIV. unat (getPatientRecordCount
     (run (constructor \<lparr>msg_sender = 1, block_timestamp = 0\<rparr>)
        [(\<lparr>msg_sender = 1, block_timestamp = 10\<rparr>, AddMedicalRecord ''r1'' ''h1'' ''lab'' ''{}''),
         (\<lparr>msg_sender = 1, block_timestamp = 11\<rparr>, AddMedicalRecord ''r1'' ''h2'' ''lab'' ''{}''),
         (\<lparr>msg_sender = 1, block_timestamp = 12\<rparr>, AddMedicalRecord ''r3'' ''h3'' ''lab'' ''{}''),
         (\<lparr>msg_sender = 1, block_timestamp = 13\<rparr>, DeactivateMedicalRecord 1)]) a)) = 2"
proof -
  have t: "getTotalRecords
     (run (constructor \<lparr>msg_sender = 1, block_timestamp = 0\<rparr>)
        [(\<lparr>msg_sender = 1, block_timestamp = 10\<rparr>, AddMedicalRecord ''r1'' ''h1'' ''lab'' ''{}''),
         (\<lparr>msg_sender = 1, block_timestamp = 11\<rparr>, AddMedicalRecord ''r1'' ''h2'' ''lab'' ''{}''),
         (\<lparr>msg_sender = 1, block_timestamp = 12\<rparr>, AddMedicalRecord ''r3'' ''h3'' ''lab'' ''{}''),
         (\<lparr>msg_sender = 1, block_timestamp = 13\<rparr>, DeactivateMedicalRecord 1)]) = 2"
    and c: "getPatientRecordCount
     (run (constructor \<lparr>msg_sender = 1, block_timestamp = 0\<rparr>)
        [(\<lparr>msg_sender = 1, block_timestamp = 10\<rparr>, AddMedicalRecord ''r1'' ''h1'' ''lab'' ''{}''),
         (\<lparr>msg_sender = 1, block_timestamp = 11\<rparr>, AddMedicalRecord ''r1'' ''h2'' ''lab'' ''{}''),
         (\<lparr>msg_sender = 1, block_timestamp = 12\<rparr>, AddMedicalRecord ''r3'' ''h3'' ''lab'' ''{}''),
         (\<lparr>msg_sender = 1, block_timestamp = 13\<rparr>, DeactivateMedicalRecord 1)]) 1 = 2"
    by (simp_all add: constructor_def fn_defs modifier_defs getTotalRecords_def
        getPatientRecordCount_def)
  from record_count_accounting [where A = 1
     and ?e0.0 = "\<lparr>msg_sender = 1, block_timestamp = 0\<rparr>"
     and txs = "[(\<lparr>msg_sender = 1, block_timestamp = 10\<rparr>, AddMedicalRecord ''r1'' ''h1'' ''lab'' ''{}''),
         (\<lparr>msg_sender = 1, block_timestamp = 11\<rparr>, AddMedicalRecord ''r1'' ''h2'' ''lab'' ''{}''),
         (\<lparr>msg_sender = 1, block_timestamp = 12\<rparr>, AddMedicalRecord ''r3'' ''h3'' ''lab'' ''{}''),
         (\<lparr>msg_sender = 1, block_timestamp = 13\<rparr>, DeactivateMedicalRecord 1)]"]
  show ?thesis
    unfolding t c by simp
qed

text \<open>
  C10. \<^verbatim>\<open>amIAuthorized()\<close> and \<^verbatim>\<open>isPatientAuthorized(address)\<close> read the raw
  allow-list entry, not the permission to write. After any run from the constructor in
  which \<^verbatim>\<open>authorizePatient\<close> never succeeded for the current owner, the owner's
  \<^verbatim>\<open>amIAuthorized()\<close> is false, although the owner passes
  \<^verbatim>\<open>onlyAuthorizedPatient\<close> and none of the three write operations fails for the
  owner as unauthorized.
\<close>

theorem amIAuthorized_raw_membership:
  "amIAuthorized s e = authorizedPatients s (msg_sender e) \<and>
   isPatientAuthorized s a = authorizedPatients s a \<and>
   (msg_sender e = owner (run (constructor e0) txs) \<and>
    \<not> ever_authorized (msg_sender e) (constructor e0) txs \<longrightarrow>
      \<not> amIAuthorized (run (constructor e0) txs) e \<and>
      \<not> isPatientAuthorized (run (constructor e0) txs) (msg_sender e) \<and>
      onlyAuthorizedPatient (run (constructor e0) txs) e \<and>
      \<not> fails_with (addMedicalRecord (run (constructor e0) txs) e rid h t m) Unauthorized \<and>
      \<not> fails_with (updateMedicalRecord (run (constructor e0) txs) e i h m) Unauthorized \<and>
      \<not> fails_with (deactivateMedicalRecord (run (constructor e0) txs) e i) Unauthorized)"
proof -
  let ?s = "run (constructor e0) txs"
  have raw: "\<not> authorizedPatients ?s (msg_sender e)"
    if "\<not> ever_authorized (msg_sender e) (constructor e0) txs"
    using _ that by (rule never_authorized_run) (simp add: constructor_def)
  have gate: "\<not> fails_with (addMedicalRecord ?s e rid h t m) Unauthorized"
    "\<not> fails_with (updateMedicalRecord ?s e i h m) Unauthorized"
    "\<not> fails_with (deactivateMedicalRecord ?s e i) Unauthorized"
    if "msg_sender e = owner ?s"
    using that
    by (simp_all add: addMedicalRecord_def updateMedicalRecord_def deactivateMedicalRecord_def
        onlyAuthorizedPatient_def checked_inc_def Let_def)
  show ?thesis
    using raw gate
    by (auto simp: amIAuthorized_def isPatientAuthorized_def onlyAuthorizedPatient_def)
qed

theorem amIAuthorized_raw_membership_witness:
  "msg_sender \<lparr>msg_sender = 2, block_timestamp = 9\<rparr>
     = owner (run (constructor \<lparr>msg_sender = 1, block_timestamp = 0\<rparr>)
               [(\<lparr>msg_sender = 1, block_timestamp = 5\<rparr>, TransferOwnership 2)]) \<and>
   \<not> ever_authorized 2 (constructor \<lparr>msg_sender = 1, block_timestamp = 0\<rparr>)
       [(\<lparr>msg_sender = 1, block_timestamp = 5\<rparr>, TransferOwnership 2)] \<and>
   \<not> amIAuthorized (run (constructor \<lparr>msg_sender = 1, block_timestamp = 0\<rparr>)
               [(\<lparr>msg_sender = 1, block_timestamp = 5\<rparr>, TransferOwnership 2)])
       \<lparr>msg_sender = 2, block_timestamp = 9\<rparr> \<and>
   onlyAuthorizedPatient (run (constructor \<lparr>msg_sender = 1, block_timestamp = 0\<rparr>)
               [(\<lparr>msg_sender = 1, block_timestamp = 5\<rparr>, TransferOwnership 2)])
       \<lparr>msg_sender = 2, block_timestamp = 9\<rparr> \<and>
   succeeded (addMedicalRecord (run (constructor \<lparr>msg_sender = 1, block_timestamp = 0\<rparr>)
               [(\<lparr>msg_sender = 1, block_timestamp = 5\<rparr>, TransferOwnership 2)])
       \<lparr>msg_sender = 2, block_timestamp = 9\<rparr> ''r1'' ''h1'' ''lab'' ''{}'')"
proof -
  have pre: "msg_sender \<lparr>msg_sender = 2, block_timestamp = 9\<rparr>
     = owner (run (constructor \<lparr>msg_sender = 1, block_timestamp = 0\<rparr>)
               [(\<lparr>msg_sender = 1, block_timestamp = 5\<rparr>, TransferOwnership 2)])"
    "\<not> ever_authorized (msg_sender \<lparr>msg_sender = 2, block_timestamp = 9\<rparr>)
       (constructor \<lparr>msg_sender = 1, block_timestamp = 0\<rparr>)
       [(\<lparr>msg_sender = 1, block_timestamp = 5\<rparr>, TransferOwnership 2)]"
    by (simp_all add: constructor_def fn_defs modifier_defs)
  have ok: "succeeded (addMedicalRecord (run (constructor \<lparr>msg_sender = 1, block_timestamp = 0\<rparr>)
               [(\<lparr>msg_sender = 1, block_timestamp = 5\<rparr>, TransferOwnership 2)])
       \<lparr>msg_sender = 2, block_timestamp = 9\<rparr> ''r1'' ''h1'' ''lab'' ''{}'')"
    by (simp add: constructor_def fn_defs modifier_defs)
  from amIAuthorized_raw_membership [where e = "\<lparr>msg_sender = 2, block_timestamp = 9\<rparr>"
      and ?e0.0 = "\<lparr>msg_sender = 1, block_timestamp = 0\<rparr>"
      and txs = "[(\<lparr>msg_sender = 1, block_timestamp = 5\<rparr>, TransferOwnership 2)]"]
    pre
  have "\<not> amIAuthorized (run (constructor \<lparr>msg_sender = 1, block_timestamp = 0\<rparr>)
               [(\<lparr>msg_sender = 1, block_timestamp = 5\<rparr>, TransferOwnership 2)])
       \<lparr>msg_sender = 2, block_timestamp = 9\<rparr> \<and>
     onlyAuthorizedPatient (run (constructor \<lparr>msg_sender = 1, block_timestamp = 0\<rparr>)
               [(\<lparr>msg_sender = 1, block_timestamp = 5\<rparr>, TransferOwnership 2)])
       \<lparr>msg_sender = 2, block_timestamp = 9\<rparr>"
    by blast
  with pre ok show ?thesis by simp
qed

end
